theory Spec2Isabelle
  imports Complex_Main
begin

section \<open>Floating-point values of the drawing demo\<close>

text \<open>
  The drawing demo (\<^verbatim>\<open>GLFW_VSC/main.cpp\<close>) computes with C++ \<^verbatim>\<open>double\<close> and
  \<^verbatim>\<open>float\<close>. A value of either type is a finite number, an infinity or a NaN. The
  finite numbers are embedded in the reals; which real an operation returns is decided
  by a rounding function that is a parameter of the model: \<open>round_double\<close> for results
  of type \<^verbatim>\<open>double\<close>, \<open>round_float\<close> for results of type \<^verbatim>\<open>float\<close>. A rounding
  function takes the exact result to a value of the format, so it also decides overflow
  (it may return an infinity). Nothing is assumed about the two functions unless a
  theorem says so; every theorem that does not mention them holds for each choice.

  Zero carries no sign in this model. The only division of the program divides by an
  \<^verbatim>\<open>int\<close> converted to \<^verbatim>\<open>double\<close>, which is the positive zero when it is zero, so
  \<open>fp_div\<close> treats a zero divisor as the positive zero.
\<close>

datatype fpval = Fin real | PInf | NInf | NaN

record fenv =
  round_double :: "real \<Rightarrow> fpval"
  round_float :: "real \<Rightarrow> fpval"

fun fp_neg :: "fpval \<Rightarrow> fpval" where
  "fp_neg (Fin a) = Fin (- a)"
| "fp_neg PInf = NInf"
| "fp_neg NInf = PInf"
| "fp_neg NaN = NaN"

fun fp_is_zero :: "fpval \<Rightarrow> bool" where
  "fp_is_zero (Fin a) = (a = 0)"
| "fp_is_zero _ = False"

fun fp_is_neg :: "fpval \<Rightarrow> bool" where
  "fp_is_neg (Fin a) = (a < 0)"
| "fp_is_neg NInf = True"
| "fp_is_neg _ = False"

fun fp_add :: "(real \<Rightarrow> fpval) \<Rightarrow> fpval \<Rightarrow> fpval \<Rightarrow> fpval" where
  "fp_add r (Fin a) (Fin b) = r (a + b)"
| "fp_add r NaN _ = NaN"
| "fp_add r _ NaN = NaN"
| "fp_add r PInf NInf = NaN"
| "fp_add r NInf PInf = NaN"
| "fp_add r PInf _ = PInf"
| "fp_add r _ PInf = PInf"
| "fp_add r NInf _ = NInf"
| "fp_add r _ NInf = NInf"

definition fp_sub :: "(real \<Rightarrow> fpval) \<Rightarrow> fpval \<Rightarrow> fpval \<Rightarrow> fpval" where
  "fp_sub r a b = fp_add r a (fp_neg b)"

fun fp_mul :: "(real \<Rightarrow> fpval) \<Rightarrow> fpval \<Rightarrow> fpval \<Rightarrow> fpval" where
  "fp_mul r (Fin a) (Fin b) = r (a * b)"
| "fp_mul r NaN _ = NaN"
| "fp_mul r _ NaN = NaN"
| "fp_mul r a b =
     (if fp_is_zero a \<or> fp_is_zero b then NaN
      else if fp_is_neg a = fp_is_neg b then PInf else NInf)"

fun fp_div :: "(real \<Rightarrow> fpval) \<Rightarrow> fpval \<Rightarrow> fpval \<Rightarrow> fpval" where
  "fp_div r (Fin a) (Fin b) =
     (if b = 0 then (if a = 0 then NaN else if 0 < a then PInf else NInf)
      else r (a / b))"
| "fp_div r NaN _ = NaN"
| "fp_div r _ NaN = NaN"
| "fp_div r (Fin a) _ = Fin 0"
| "fp_div r a (Fin b) = (if fp_is_neg a = (b < 0) then PInf else NInf)"
| "fp_div r _ _ = NaN"

text \<open>The comparison \<^verbatim>\<open>a > b\<close>: false as soon as one side is a NaN.\<close>

fun fp_gt :: "fpval \<Rightarrow> fpval \<Rightarrow> bool" where
  "fp_gt (Fin a) (Fin b) = (b < a)"
| "fp_gt NaN _ = False"
| "fp_gt _ NaN = False"
| "fp_gt PInf b = (b \<noteq> PInf)"
| "fp_gt NInf _ = False"
| "fp_gt _ NInf = True"
| "fp_gt _ _ = False"

text \<open>The conversion \<^verbatim>\<open>(float)d\<close> of a \<^verbatim>\<open>double\<close>: a finite value is rounded to the
  narrower format, the others are kept.\<close>

fun to_float :: "fenv \<Rightarrow> fpval \<Rightarrow> fpval" where
  "to_float E (Fin a) = round_float E a"
| "to_float E v = v"

text \<open>The conversion of an \<^verbatim>\<open>int\<close> to \<^verbatim>\<open>double\<close> is exact: a 32-bit integer has
  fewer bits than the significand of a \<^verbatim>\<open>double\<close>.\<close>

definition int_to_double :: "int \<Rightarrow> fpval" where
  "int_to_double n = Fin (real_of_int n)"

text \<open>The environment in which every operation returns the exact result. It agrees with
  floating-point arithmetic on the runs whose intermediate results are all numbers of
  the format.\<close>

definition exact_env :: fenv where
  "exact_env = \<lparr>round_double = Fin, round_float = Fin\<rparr>"

text \<open>\<open>exact_on r vs\<close>: the rounding \<open>r\<close> returns each number of \<open>vs\<close> unchanged, as
  rounding does for the numbers the format represents.\<close>

definition exact_on :: "(real \<Rightarrow> fpval) \<Rightarrow> real list \<Rightarrow> bool" where
  "exact_on r vs = list_all (\<lambda>v. r v = Fin v) vs"

subsection \<open>IEEE 754 rounding\<close>

text \<open>\<open>round_half_even z\<close>: the integer next to \<open>z\<close>, the even one of the two when \<open>z\<close>
  lies half-way.\<close>

definition round_half_even :: "real \<Rightarrow> int" where
  "round_half_even z =
     (let f = \<lfloor>z\<rfloor>; d = z - of_int f
      in if d < 1 / 2 then f else if 1 / 2 < d then f + 1 else if even f then f else f + 1)"

text \<open>
  The binary exponent of \<open>x\<close>: the \<open>e\<close> with \<open>2\<^sup>e \<le> |x| < 2\<^sup>e\<^sup>+\<^sup>1\<close>, searched upwards from
  0 when \<open>1 \<le> |x|\<close> and downwards from \<open>-1\<close> otherwise, and kept between the least
  exponent \<open>emin\<close> (below it the numbers are subnormal) and the greatest one \<open>emax\<close>.
\<close>

function exp_up :: "int \<Rightarrow> int \<Rightarrow> real \<Rightarrow> int" where
  "exp_up emax e x = (if e < emax \<and> 2 powi (e + 1) \<le> x then exp_up emax (e + 1) x else e)"
  by pat_completeness auto
termination
  by (relation "measure (\<lambda>(emax, e, x). nat (emax - e))") auto

function exp_down :: "int \<Rightarrow> int \<Rightarrow> real \<Rightarrow> int" where
  "exp_down emin e x = (if emin < e \<and> x < 2 powi e then exp_down emin (e - 1) x else e)"
  by pat_completeness auto
termination
  by (relation "measure (\<lambda>(emin, e, x). nat (e - emin))") auto

declare exp_up.simps [simp del] exp_down.simps [simp del]

definition fexp :: "int \<Rightarrow> int \<Rightarrow> real \<Rightarrow> int" where
  "fexp emin emax x = (if 1 \<le> \<bar>x\<bar> then exp_up emax 0 \<bar>x\<bar> else exp_down emin (- 1) \<bar>x\<bar>)"

text \<open>
  Rounding to nearest, ties to even, in the binary format with \<open>p\<close> significant bits and
  exponents from \<open>emin\<close> to \<open>emax\<close>: \<open>x\<close> is rounded to a multiple of
  \<open>q = 2\<^sup>e\<^sup>-\<^sup>p\<^sup>+\<^sup>1\<close>, and a result of magnitude \<open>2\<^sup>e\<^sup>m\<^sup>a\<^sup>x\<^sup>+\<^sup>1\<close> or more is an infinity.
  \<open>float_round\<close> and \<open>double_round\<close> are the roundings of IEEE 754 single and double
  precision, and \<open>ieee_env\<close> is the environment of a program that computes with them.
\<close>

definition ieee_round :: "nat \<Rightarrow> int \<Rightarrow> int \<Rightarrow> real \<Rightarrow> fpval" where
  "ieee_round p emin emax x =
     (if x = 0 then Fin 0
      else
        (let e = fexp emin emax x;
             q = 2 powi (e - (int p - 1));
             y = of_int (round_half_even (x / q)) * q
         in if 2 powi (emax + 1) \<le> \<bar>y\<bar> then (if 0 < x then PInf else NInf) else Fin y))"

definition float_round :: "real \<Rightarrow> fpval" where
  "float_round = ieee_round 24 (- 126) 127"

definition double_round :: "real \<Rightarrow> fpval" where
  "double_round = ieee_round 53 (- 1022) 1023"

definition ieee_env :: fenv where
  "ieee_env = \<lparr>round_double = double_round, round_float = float_round\<rparr>"

section \<open>The drawing demo: data and global state\<close>

text \<open>\<^verbatim>\<open>struct Vec2 { float x, y; };\<close>\<close>

record Vec2 =
  Vec2_x :: fpval
  Vec2_y :: fpval

text \<open>
  The file-scope variables of \<^verbatim>\<open>main.cpp\<close>: \<^verbatim>\<open>g_win_w\<close>, \<^verbatim>\<open>g_win_h\<close>,
  \<^verbatim>\<open>g_mouse_down\<close>, \<^verbatim>\<open>g_strokes\<close> and \<^verbatim>\<open>g_current\<close>. A \<^verbatim>\<open>std::vector\<close> is a list
  whose last element is its back.
\<close>

record canvas =
  g_win_w :: int
  g_win_h :: int
  g_mouse_down :: bool
  g_strokes :: "Vec2 list list"
  g_current :: "Vec2 list"

definition initial_canvas :: canvas where
  "initial_canvas =
     \<lparr>g_win_w = 800, g_win_h = 600, g_mouse_down = False, g_strokes = [], g_current = []\<rparr>"

text \<open>Constants of \<^verbatim>\<open>GLFW/glfw3.h\<close>, which is not part of the repository.\<close>

definition GLFW_RELEASE :: int where "GLFW_RELEASE = 0"
definition GLFW_PRESS :: int where "GLFW_PRESS = 1"
definition GLFW_MOUSE_BUTTON_LEFT :: int where "GLFW_MOUSE_BUTTON_LEFT = 0"

section \<open>Coordinate conversion\<close>

text \<open>
  \<^verbatim>\<open>wnd_to_ndc(sx, sy)\<close> reads the globals \<^verbatim>\<open>g_win_w\<close> and \<^verbatim>\<open>g_win_h\<close>; the model
  takes them from the state. The arithmetic is done in \<^verbatim>\<open>double\<close> and the result is
  converted to \<^verbatim>\<open>float\<close>. The literals \<^verbatim>\<open>2.0\<close> and \<^verbatim>\<open>1.0\<close> are numbers of the format.
\<close>

definition wnd_to_ndc :: "fenv \<Rightarrow> canvas \<Rightarrow> fpval \<Rightarrow> fpval \<Rightarrow> Vec2" where
  "wnd_to_ndc E s sx sy =
     (let rd = round_double E;
          x = to_float E
                (fp_sub rd (fp_mul rd (fp_div rd sx (int_to_double (g_win_w s))) (Fin 2)) (Fin 1));
          y = to_float E
                (fp_sub rd (Fin 1) (fp_mul rd (fp_div rd sy (int_to_double (g_win_h s))) (Fin 2)))
      in \<lparr>Vec2_x = x, Vec2_y = y\<rparr>)"

section \<open>Input callbacks\<close>

text \<open>
  The test of \<^verbatim>\<open>cursor_pos_cb\<close>: with \<^verbatim>\<open>dx = p.x - last.x\<close> and
  \<^verbatim>\<open>dy = p.y - last.y\<close>, is \<^verbatim>\<open>dx * dx + dy * dy > 1e-6f\<close>? Every operation is a
  \<^verbatim>\<open>float\<close> operation, rounded to \<^verbatim>\<open>float\<close>; the literal \<^verbatim>\<open>1e-6f\<close> is one millionth rounded to \<^verbatim>\<open>float\<close>.
\<close>

definition epsilon :: "fenv \<Rightarrow> fpval" where
  "epsilon E = round_float E (1 / 1000000)"

definition exceeds_threshold :: "fenv \<Rightarrow> Vec2 \<Rightarrow> Vec2 \<Rightarrow> bool" where
  "exceeds_threshold E p lst =
     (let rf = round_float E;
          dx = fp_sub rf (Vec2_x p) (Vec2_x lst);
          dy = fp_sub rf (Vec2_y p) (Vec2_y lst)
      in fp_gt (fp_add rf (fp_mul rf dx dx) (fp_mul rf dy dy)) (epsilon E))"

text \<open>
  \<^verbatim>\<open>mouse_button_cb(win, button, action, mods)\<close>. On a press it asks the window for
  the cursor position (\<^verbatim>\<open>glfwGetCursorPos\<close>); that answer is the argument \<open>(mx, my)\<close>.
  \<^verbatim>\<open>mods\<close> is not read.
\<close>

definition mouse_button_cb :: "fenv \<Rightarrow> canvas \<Rightarrow> int \<Rightarrow> int \<Rightarrow> fpval \<times> fpval \<Rightarrow> canvas" where
  "mouse_button_cb E s button action cur =
     (if button = GLFW_MOUSE_BUTTON_LEFT then
        (if action = GLFW_PRESS then
           s\<lparr>g_mouse_down := True, g_current := [wnd_to_ndc E s (fst cur) (snd cur)]\<rparr>
         else if action = GLFW_RELEASE then
           (if g_current s \<noteq> [] then
              s\<lparr>g_mouse_down := False, g_strokes := g_strokes s @ [g_current s], g_current := []\<rparr>
            else s\<lparr>g_mouse_down := False\<rparr>)
         else s)
      else s)"

text \<open>\<^verbatim>\<open>cursor_pos_cb(win, x, y)\<close>.\<close>

definition cursor_pos_cb :: "fenv \<Rightarrow> canvas \<Rightarrow> fpval \<Rightarrow> fpval \<Rightarrow> canvas" where
  "cursor_pos_cb E s x y =
     (if g_mouse_down s then
        (let p = wnd_to_ndc E s x y in
         if g_current s = [] then s\<lparr>g_current := [p]\<rparr>
         else if exceeds_threshold E p (last (g_current s))
              then s\<lparr>g_current := g_current s @ [p]\<rparr>
              else s)
      else s)"

text \<open>
  Calls that leave the program: the OpenGL and GLFW calls of the resize callback and of
  the render pass, with their arguments. \<open>GlBufferData n vs\<close> uploads the \<open>n\<close> bytes of
  the points \<open>vs\<close> to \<^verbatim>\<open>GL_ARRAY_BUFFER\<close> with \<^verbatim>\<open>GL_DYNAMIC_DRAW\<close>;
  \<open>GlDrawArrays first count\<close> draws with mode \<^verbatim>\<open>GL_LINE_STRIP\<close>, the only mode used.
\<close>

datatype gl_call =
    GlViewport int int int int
  | GlClear
  | GlUseProgram nat
  | GlUniform3f int fpval fpval fpval
  | GlBindVertexArray nat
  | GlBindBuffer nat
  | GlBufferData nat "Vec2 list"
  | GlDrawArrays int int
  | GlfwSwapBuffers

text \<open>\<^verbatim>\<open>framebuffer_size_cb(win, w, h)\<close>: the new state and the call it issues.\<close>

definition framebuffer_size_cb :: "canvas \<Rightarrow> int \<Rightarrow> int \<Rightarrow> canvas \<times> gl_call list" where
  "framebuffer_size_cb s w h = (s\<lparr>g_win_w := w, g_win_h := h\<rparr>, [GlViewport 0 0 w h])"

section \<open>The main loop\<close>

text \<open>
  The block run when \<^verbatim>\<open>glfwGetKey(window, GLFW_KEY_C) == GLFW_PRESS\<close>:
  \<^verbatim>\<open>{ g_strokes.clear(); g_current.clear(); }\<close>.
\<close>

definition clear_canvas :: "canvas \<Rightarrow> canvas" where
  "clear_canvas s = s\<lparr>g_strokes := [], g_current := []\<rparr>"

text \<open>The handles \<^verbatim>\<open>main\<close> gets from OpenGL before the loop.\<close>

record gl_handles =
  program :: nat
  color_loc :: int
  vao :: nat
  vbo :: nat

text \<open>\<^verbatim>\<open>(GLsizei)s.size()\<close>: a \<^verbatim>\<open>size_t\<close> converted to a 32-bit \<^verbatim>\<open>int\<close>.\<close>

definition to_GLsizei :: "nat \<Rightarrow> int" where
  "to_GLsizei n = (int n + 2 ^ 31) mod 2 ^ 32 - 2 ^ 31"

text \<open>\<^verbatim>\<open>sizeof(Vec2)\<close>: two \<^verbatim>\<open>float\<close>s.\<close>

definition sizeof_Vec2 :: nat where
  "sizeof_Vec2 = 8"

text \<open>The loop \<^verbatim>\<open>for (const auto& s : g_strokes)\<close> of the render pass.\<close>

fun draw_finished :: "gl_handles \<Rightarrow> Vec2 list list \<Rightarrow> gl_call list" where
  "draw_finished H [] = []"
| "draw_finished H (s # rest) =
     (if length s < 2 then draw_finished H rest
      else [GlBindBuffer (vbo H),
            GlBufferData (length s * sizeof_Vec2) s,
            GlDrawArrays 0 (to_GLsizei (length s))] @ draw_finished H rest)"

text \<open>The render pass of one iteration, from \<^verbatim>\<open>glClear\<close> to \<^verbatim>\<open>glfwSwapBuffers\<close>.\<close>

definition render :: "fenv \<Rightarrow> gl_handles \<Rightarrow> canvas \<Rightarrow> gl_call list" where
  "render E H s =
     [GlClear,
      GlUseProgram (program H),
      GlUniform3f (color_loc H) (round_float E (5 / 100)) (round_float E (5 / 100))
        (round_float E (5 / 100)),
      GlBindVertexArray (vao H)]
     @ draw_finished H (g_strokes s)
     @ (if 2 \<le> length (g_current s) then
          [GlBindBuffer (vbo H),
           GlBufferData (length (g_current s) * sizeof_Vec2) (g_current s),
           GlDrawArrays 0 (to_GLsizei (length (g_current s)))]
        else [])
     @ [GlBindVertexArray 0, GlUseProgram 0, GlfwSwapBuffers]"

text \<open>
  What \<^verbatim>\<open>glfwPollEvents\<close> delivers: the three registered callbacks with their
  arguments, and the user's request to close the window, which sets the window's close
  flag.
\<close>

datatype event =
    MouseButton int int int "fpval \<times> fpval"
  | CursorPos fpval fpval
  | FramebufferSize int int
  | WindowClose

text \<open>The running program: its globals, the window's close flag, and the calls issued
  so far.\<close>

record app =
  globals :: canvas
  window_should_close :: bool
  gl_calls :: "gl_call list"

definition dispatch :: "fenv \<Rightarrow> app \<Rightarrow> event \<Rightarrow> app" where
  "dispatch E a ev =
     (case ev of
        MouseButton button action mods cur \<Rightarrow>
          a\<lparr>globals := mouse_button_cb E (globals a) button action cur\<rparr>
      | CursorPos x y \<Rightarrow> a\<lparr>globals := cursor_pos_cb E (globals a) x y\<rparr>
      | FramebufferSize w h \<Rightarrow>
          (let (s, calls) = framebuffer_size_cb (globals a) w h
           in a\<lparr>globals := s, gl_calls := gl_calls a @ calls\<rparr>)
      | WindowClose \<Rightarrow> a\<lparr>window_should_close := True\<rparr>)"

definition glfwPollEvents :: "fenv \<Rightarrow> app \<Rightarrow> event list \<Rightarrow> app" where
  "glfwPollEvents E a evs = foldl (dispatch E) a evs"

text \<open>The input of one iteration: the pending events and the state of the two keys
  (\<^verbatim>\<open>glfwGetKey\<close> for \<^verbatim>\<open>GLFW_KEY_ESCAPE\<close> and \<^verbatim>\<open>GLFW_KEY_C\<close>).\<close>

record frame_input =
  pending :: "event list"
  key_escape :: int
  key_c :: int

definition main_loop_body :: "fenv \<Rightarrow> gl_handles \<Rightarrow> app \<Rightarrow> frame_input \<Rightarrow> app" where
  "main_loop_body E H a inp =
     (let a1 = glfwPollEvents E a (pending inp);
          a2 = (if key_escape inp = GLFW_PRESS then a1\<lparr>window_should_close := True\<rparr> else a1);
          a3 = (if key_c inp = GLFW_PRESS then a2\<lparr>globals := clear_canvas (globals a2)\<rparr> else a2)
      in a3\<lparr>gl_calls := gl_calls a3 @ render E H (globals a3)\<rparr>)"

text \<open>
  \<^verbatim>\<open>while (!glfwWindowShouldClose(window)) { ... }\<close>. The loop runs as long as the
  window is open, so the model is given the inputs of finitely many iterations: the
  result is \<open>None\<close> when they are used up and the loop is still running.
\<close>

fun main_loop :: "fenv \<Rightarrow> gl_handles \<Rightarrow> app \<Rightarrow> frame_input list \<Rightarrow> app option" where
  "main_loop E H a [] = (if window_should_close a then Some a else None)"
| "main_loop E H a (inp # rest) =
     (if window_should_close a then Some a
      else main_loop E H (main_loop_body E H a inp) rest)"

section \<open>Start-up and exit\<close>

text \<open>What the libraries answer during start-up: whether each step succeeds, the info
  logs of the shader compiler and linker, and the handles.\<close>

record startup =
  glfwInit_ok :: bool
  window_created :: bool
  glad_loaded :: bool
  vertex_compiled :: bool
  vertex_info_log :: string
  fragment_compiled :: bool
  fragment_info_log :: string
  program_linked :: bool
  program_info_log :: string
  handles :: gl_handles

definition endl :: string where
  "endl = [CHR 0x0A]"

text \<open>\<^verbatim>\<open>compile_shader\<close>: what it writes to \<^verbatim>\<open>std::cerr\<close>. It returns the shader's
  handle whether or not the compilation succeeded.\<close>

definition compile_shader :: "bool \<Rightarrow> string \<Rightarrow> string" where
  "compile_shader ok buf = (if \<not> ok then ''Shader compile error: '' @ buf @ endl else [])"

text \<open>\<^verbatim>\<open>create_program\<close>: what it writes to \<^verbatim>\<open>std::cerr\<close>; it returns the program's
  handle in every case.\<close>

definition create_program :: "startup \<Rightarrow> string" where
  "create_program env =
     compile_shader (vertex_compiled env) (vertex_info_log env)
     @ compile_shader (fragment_compiled env) (fragment_info_log env)
     @ (if \<not> program_linked env then ''Program link error: '' @ program_info_log env @ endl
        else [])"

text \<open>The end of a run of \<^verbatim>\<open>main\<close>: the value it returns, what it wrote to
  \<^verbatim>\<open>std::cerr\<close>, and the rendering calls of the main loop.\<close>

record outcome =
  exit_status :: int
  cerr :: string
  issued :: "gl_call list"

text \<open>The program when it enters the main loop: the globals have their initial values,
  the window is open, nothing has been drawn.\<close>

definition initial_app :: app where
  "initial_app = \<lparr>globals = initial_canvas, window_should_close = False, gl_calls = []\<rparr>"

text \<open>
  \<^verbatim>\<open>main\<close>. The one-time OpenGL set-up between start-up and the loop (vertex array,
  buffer, blending, line width, clear colour) and the clean-up after the loop change
  neither the globals nor the control flow; they are left out of \<open>issued\<close>.
\<close>

definition main :: "fenv \<Rightarrow> startup \<Rightarrow> frame_input list \<Rightarrow> outcome option" where
  "main E env frames =
     (if \<not> glfwInit_ok env then
        Some \<lparr>exit_status = - 1, cerr = ''Failed to init GLFW'' @ endl, issued = []\<rparr>
      else if \<not> window_created env then
        Some \<lparr>exit_status = - 1, cerr = ''Failed to create window'' @ endl, issued = []\<rparr>
      else if \<not> glad_loaded env then
        Some \<lparr>exit_status = - 1, cerr = ''Failed to initialize GLAD'' @ endl, issued = []\<rparr>
      else
        (case main_loop E (handles env) initial_app frames of
           None \<Rightarrow> None
         | Some a \<Rightarrow>
             Some \<lparr>exit_status = 0, cerr = create_program env, issued = gl_calls a\<rparr>))"

section \<open>The Qt example: opening the second window\<close>

text \<open>
  \<^verbatim>\<open>MainWindow\<close> holds the pointer \<^verbatim>\<open>secondWindow\<close>; \<open>None\<close> is \<^verbatim>\<open>nullptr\<close>. Beside
  it the model keeps the addresses of the \<^verbatim>\<open>SecondWindow\<close> objects created with
  \<^verbatim>\<open>new\<close>, in order, and the calls made on them.
\<close>

datatype window_call = Show nat | Raise nat | ActivateWindow nat

record MainWindow =
  secondWindow :: "nat option"
  created :: "nat list"
  window_calls :: "window_call list"

text \<open>The constructor initialises \<^verbatim>\<open>secondWindow(nullptr)\<close> and connects the button's
  \<^verbatim>\<open>clicked\<close> signal to \<^verbatim>\<open>openSecondWindow\<close>.\<close>

definition MainWindow_ctor :: MainWindow where
  "MainWindow_ctor = \<lparr>secondWindow = None, created = [], window_calls = []\<rparr>"

text \<open>\<^verbatim>\<open>new SecondWindow()\<close> returns an address that is not null and not that of an
  object created before; no object is ever deleted.\<close>

definition new_SecondWindow :: "nat list \<Rightarrow> nat" where
  "new_SecondWindow objs = Suc (length objs)"

definition openSecondWindow :: "MainWindow \<Rightarrow> MainWindow" where
  "openSecondWindow m =
     (let m1 = (case secondWindow m of
                  None \<Rightarrow>
                    (let p = new_SecondWindow (created m)
                     in m\<lparr>secondWindow := Some p, created := created m @ [p]\<rparr>)
                | Some p \<Rightarrow> m)
      in case secondWindow m1 of
           Some p \<Rightarrow> m1\<lparr>window_calls := window_calls m1 @ [Show p, Raise p, ActivateWindow p]\<rparr>
         | None \<Rightarrow> m1)"

section \<open>Notions used to state the properties\<close>

text \<open>\<open>spaced E ps\<close>: each point of \<open>ps\<close> but the first passed the threshold test of
  \<^verbatim>\<open>cursor_pos_cb\<close> against the point before it.\<close>

fun spaced :: "fenv \<Rightarrow> Vec2 list \<Rightarrow> bool" where
  "spaced E [] = True"
| "spaced E [p] = True"
| "spaced E (p # q # rest) = (exceeds_threshold E q p \<and> spaced E (q # rest))"

text \<open>A run of cursor moves, and the gesture of a left-button press at cursor position
  \<open>c0\<close>, the cursor moves \<open>ms\<close> and the release.\<close>

definition cursor_moves :: "fenv \<Rightarrow> canvas \<Rightarrow> (fpval \<times> fpval) list \<Rightarrow> canvas" where
  "cursor_moves E s ms = foldl (\<lambda>s m. cursor_pos_cb E s (fst m) (snd m)) s ms"

definition press_moves_release ::
  "fenv \<Rightarrow> canvas \<Rightarrow> fpval \<times> fpval \<Rightarrow> (fpval \<times> fpval) list \<Rightarrow> fpval \<times> fpval \<Rightarrow> canvas" where
  "press_moves_release E s c0 ms c1 =
     mouse_button_cb E
       (cursor_moves E (mouse_button_cb E s GLFW_MOUSE_BUTTON_LEFT GLFW_PRESS c0) ms)
       GLFW_MOUSE_BUTTON_LEFT GLFW_RELEASE c1"

text \<open>
  \<open>float_accurate r\<close>: the rounding \<open>r\<close> is as accurate as rounding to \<^verbatim>\<open>float\<close>. A
  finite result differs from the exact one by at most the fraction \<open>2\<^sup>-\<^sup>2\<^sup>4\<close> of it plus
  \<open>2\<^sup>-\<^sup>1\<^sup>5\<^sup>0\<close> (half the spacing of the subnormal numbers), an infinity stands for an exact
  result of magnitude \<open>2\<^sup>1\<^sup>2\<^sup>7\<close> or more, and no result is a NaN.
\<close>

definition float_accurate :: "(real \<Rightarrow> fpval) \<Rightarrow> bool" where
  "float_accurate r =
     (\<forall>x. case r x of
            Fin y \<Rightarrow> \<bar>y - x\<bar> \<le> \<bar>x\<bar> / 2 ^ 24 + 1 / 2 ^ 150
          | PInf \<Rightarrow> 2 ^ 127 \<le> x
          | NInf \<Rightarrow> x \<le> - (2 ^ 127)
          | NaN \<Rightarrow> False)"

text \<open>
  The exact squared distance of two points with finite coordinates, and \<open>apart c ps\<close>:
  each two neighbours of \<open>ps\<close> with finite coordinates are at an exact squared distance
  above \<open>c\<close>. \<open>threshold_floor\<close> is the number \<open>0.999999 \<times> 10\<^sup>-\<^sup>6\<close>.
\<close>

definition threshold_floor :: real where
  "threshold_floor = 999999 / 10 ^ 12"

definition sq_dist :: "Vec2 \<Rightarrow> Vec2 \<Rightarrow> real option" where
  "sq_dist p q =
     (case (Vec2_x p, Vec2_y p, Vec2_x q, Vec2_y q) of
        (Fin px, Fin py, Fin qx, Fin qy) \<Rightarrow> Some ((px - qx)\<^sup>2 + (py - qy)\<^sup>2)
      | _ \<Rightarrow> None)"

fun apart :: "real \<Rightarrow> Vec2 list \<Rightarrow> bool" where
  "apart c [] = True"
| "apart c [p] = True"
| "apart c (p # q # rest) =
     ((case sq_dist q p of Some d \<Rightarrow> c < d | None \<Rightarrow> True) \<and> apart c (q # rest))"

text \<open>The three calls that draw one stroke: bind the buffer, upload the stroke's
  points, draw them as a line strip. \<open>drawable s\<close> lists the strokes of the canvas with
  at least two points, the finished ones in order and then the in-progress one.\<close>

definition stroke_calls :: "gl_handles \<Rightarrow> Vec2 list \<Rightarrow> gl_call list" where
  "stroke_calls H st =
     [GlBindBuffer (vbo H), GlBufferData (length st * sizeof_Vec2) st,
      GlDrawArrays 0 (to_GLsizei (length st))]"

fun is_stroke_call :: "gl_call \<Rightarrow> bool" where
  "is_stroke_call (GlBindBuffer b) = True"
| "is_stroke_call (GlBufferData n vs) = True"
| "is_stroke_call (GlDrawArrays first count) = True"
| "is_stroke_call _ = False"

fun is_draw_call :: "gl_call \<Rightarrow> bool" where
  "is_draw_call (GlDrawArrays first count) = True"
| "is_draw_call _ = False"

definition drawable :: "canvas \<Rightarrow> Vec2 list list" where
  "drawable s = filter (\<lambda>st. 2 \<le> length st) (g_strokes s @ [g_current s])"

text \<open>A point with finite coordinates.\<close>

definition pt :: "real \<Rightarrow> real \<Rightarrow> Vec2" where
  "pt a b = \<lparr>Vec2_x = Fin a, Vec2_y = Fin b\<rparr>"

text \<open>The start-up answers \<open>env\<close>, but with both shaders compiling and the program
  linking.\<close>

definition shaders_ok :: "startup \<Rightarrow> startup" where
  "shaders_ok env = env\<lparr>vertex_compiled := True, fragment_compiled := True, program_linked := True\<rparr>"

section \<open>Rounding error and the threshold test\<close>

text \<open>The IEEE rounding to \<^verbatim>\<open>float\<close> is accurate in the sense of \<open>float_accurate\<close>.\<close>

lemma round_half_even_close: "\<bar>of_int (round_half_even z) - z\<bar> \<le> 1 / 2"
proof -
  have "of_int \<lfloor>z\<rfloor> \<le> z" "z < of_int \<lfloor>z\<rfloor> + 1" by linarith+
  then show ?thesis
    by (auto simp: round_half_even_def Let_def)
qed

lemma exp_up_below: "2 powi e \<le> x \<Longrightarrow> 2 powi (exp_up emax e x) \<le> x"
proof (induction emax e x rule: exp_up.induct)
  case (1 emax e x)
  show ?case
  proof (cases "e < emax \<and> 2 powi (e + 1) \<le> x")
    case True
    then have "exp_up emax e x = exp_up emax (e + 1) x" by (subst exp_up.simps) simp
    with 1 True show ?thesis by simp
  next
    case False
    then have "exp_up emax e x = e" by (subst exp_up.simps) auto
    with 1 show ?thesis by simp
  qed
qed

lemma exp_up_ge: "e \<le> exp_up emax e x"
proof (induction emax e x rule: exp_up.induct)
  case (1 emax e x)
  show ?case
  proof (cases "e < emax \<and> 2 powi (e + 1) \<le> x")
    case True
    then have "exp_up emax e x = exp_up emax (e + 1) x" by (subst exp_up.simps) simp
    with 1 True show ?thesis by simp
  next
    case False
    then have "exp_up emax e x = e" by (subst exp_up.simps) auto
    then show ?thesis by simp
  qed
qed

lemma exp_down_props:
  "emin \<le> e \<Longrightarrow>
   emin \<le> exp_down emin e x \<and> (exp_down emin e x = emin \<or> 2 powi (exp_down emin e x) \<le> x)"
proof (induction emin e x rule: exp_down.induct)
  case (1 emin e x)
  show ?case
  proof (cases "emin < e \<and> x < 2 powi e")
    case True
    then have "exp_down emin e x = exp_down emin (e - 1) x" by (subst exp_down.simps) simp
    with 1 True show ?thesis by simp
  next
    case False
    then have "exp_down emin e x = e" by (subst exp_down.simps) auto
    with 1 False show ?thesis by auto
  qed
qed

lemma fexp_props:
  assumes "emin \<le> - 1"
  shows "emin \<le> fexp emin emax x"
    and "fexp emin emax x = emin \<or> 2 powi (fexp emin emax x) \<le> \<bar>x\<bar>"
proof -
  show "emin \<le> fexp emin emax x"
    using exp_up_ge[of 0 emax "\<bar>x\<bar>"] exp_down_props[OF assms, of "\<bar>x\<bar>"] assms
    by (auto simp: fexp_def)
  show "fexp emin emax x = emin \<or> 2 powi (fexp emin emax x) \<le> \<bar>x\<bar>"
    using exp_up_below[of 0 "\<bar>x\<bar>" emax] exp_down_props[OF assms, of "\<bar>x\<bar>"]
    by (auto simp: fexp_def)
qed

lemma ieee_round_error:
  fixes x q y :: real
  assumes "emin \<le> - 1"
    and q_def: "q = 2 powi (fexp emin emax x - (int p - 1))"
    and y_def: "y = of_int (round_half_even (x / q)) * q"
  shows "\<bar>y - x\<bar> \<le> \<bar>x\<bar> * 2 powi (- int p) + 2 powi (emin - int p)"
proof -
  let ?e = "fexp emin emax x"
  have q0: "0 < q" by (simp add: q_def)
  have "y - x = (of_int (round_half_even (x / q)) - x / q) * q"
    using q0 by (simp add: y_def field_simps)
  then have "\<bar>y - x\<bar> = \<bar>of_int (round_half_even (x / q)) - x / q\<bar> * q"
    using q0 by (simp add: abs_mult)
  also have "\<dots> \<le> 1 / 2 * q"
    using round_half_even_close[of "x / q"] q0 by (intro mult_right_mono) simp_all
  also have "1 / 2 * q = 2 powi (?e - int p)"
    by (simp add: q_def power_int_diff power_int_add)
  finally have err: "\<bar>y - x\<bar> \<le> 2 powi (?e - int p)" .
  from fexp_props(2)[OF assms(1), of emax x] show ?thesis
  proof
    assume "?e = emin"
    with err show ?thesis by (simp add: add_increasing)
  next
    assume "2 powi ?e \<le> \<bar>x\<bar>"
    then have "2 powi ?e * 2 powi (- int p) \<le> \<bar>x\<bar> * 2 powi (- int p)"
      by (intro mult_right_mono) simp_all
    moreover have "2 powi (?e - int p) = (2::real) powi ?e * 2 powi (- int p)"
      by (simp add: power_int_diff power_int_minus field_simps)
    moreover have "(0::real) \<le> 2 powi (emin - int p)" by simp
    ultimately show ?thesis using err by linarith
  qed
qed

lemma float_round_accurate: "float_accurate float_round"
  unfolding float_accurate_def
proof
  fix x :: real
  define q where "q = (2::real) powi (fexp (- 126) 127 x - (int 24 - 1))"
  define y where "y = of_int (round_half_even (x / q)) * q"
  have err: "\<bar>y - x\<bar> \<le> \<bar>x\<bar> * 2 powi (- int 24) + 2 powi (- 126 - int 24)"
    by (rule ieee_round_error[OF _ q_def y_def]) simp
  have c: "(2::real) powi (- int 24) = 1 / 2 ^ 24" "(2::real) powi (- 126 - int 24) = 1 / 2 ^ 150"
    "(2::real) powi (127 + 1) = 2 ^ 128"
    by (simp_all add: power_int_minus field_simps)
  have err': "\<bar>y - x\<bar> \<le> \<bar>x\<bar> / 2 ^ 24 + 1 / 2 ^ 150"
    using err unfolding c by simp
  have r: "float_round x =
      (if x = 0 then Fin 0
       else if 2 ^ 128 \<le> \<bar>y\<bar> then (if 0 < x then PInf else NInf) else Fin y)"
    unfolding float_round_def ieee_round_def Let_def y_def q_def c by simp
  show "case float_round x of
            Fin y \<Rightarrow> \<bar>y - x\<bar> \<le> \<bar>x\<bar> / 2 ^ 24 + 1 / 2 ^ 150
          | PInf \<Rightarrow> 2 ^ 127 \<le> x
          | NInf \<Rightarrow> x \<le> - (2 ^ 127)
          | NaN \<Rightarrow> False"
  proof (cases "x = 0")
    case True
    with r show ?thesis by simp
  next
    case nz: False
    show ?thesis
    proof (cases "(2::real) ^ 128 \<le> \<bar>y\<bar>")
      case False
      with r nz err' show ?thesis by simp
    next
      case True
      have "\<bar>y\<bar> \<le> \<bar>x\<bar> + \<bar>y - x\<bar>" by simp
      with err' True have "(2::real) ^ 128 \<le> \<bar>x\<bar> + \<bar>x\<bar> / 2 ^ 24 + 1 / 2 ^ 150" by linarith
      then have big: "(2::real) ^ 127 \<le> \<bar>x\<bar>" by simp
      show ?thesis
      proof (cases "0 < x")
        case True
        with big r nz \<open>2 ^ 128 \<le> \<bar>y\<bar>\<close> show ?thesis by simp
      next
        case False
        with big r nz \<open>2 ^ 128 \<le> \<bar>y\<bar>\<close> show ?thesis by simp
      qed
    qed
  qed
qed


text \<open>
  When the threshold test passes for two points with finite coordinates, in arithmetic
  as accurate as \<^verbatim>\<open>float\<close>, their exact squared distance is above
  \<open>threshold_floor\<close>: were it not, each of the five rounded results of the test would be
  too small for the sum to exceed the rounded threshold.
\<close>

lemma accurate_fin:
  assumes "float_accurate r" and "\<bar>x\<bar> < 2 ^ 127"
  obtains y where "r x = Fin y" and "\<bar>y - x\<bar> \<le> \<bar>x\<bar> / 2 ^ 24 + 1 / 2 ^ 150"
proof -
  from assms(1) have h: "case r x of
            Fin y \<Rightarrow> \<bar>y - x\<bar> \<le> \<bar>x\<bar> / 2 ^ 24 + 1 / 2 ^ 150
          | PInf \<Rightarrow> 2 ^ 127 \<le> x
          | NInf \<Rightarrow> x \<le> - (2 ^ 127)
          | NaN \<Rightarrow> False"
    unfolding float_accurate_def by blast
  show thesis
  proof (cases "r x")
    case (Fin y)
    with h that show ?thesis by simp
  next
    case PInf
    with h assms(2) show ?thesis by simp
  next
    case NInf
    with h assms(2) show ?thesis by simp
  next
    case NaN
    with h show ?thesis by simp
  qed
qed

lemma abs_le_of_accurate:
  fixes x y :: real
  assumes "\<bar>y - x\<bar> \<le> \<bar>x\<bar> / 2 ^ 24 + 1 / 2 ^ 150"
  shows "\<bar>y\<bar> \<le> \<bar>x\<bar> * (1 + 1 / 2 ^ 24) + 1 / 2 ^ 150"
proof -
  have "\<bar>y\<bar> \<le> \<bar>x\<bar> + \<bar>y - x\<bar>" by simp
  with assms show ?thesis by (simp add: algebra_simps)
qed

lemma lower_of_abs:
  fixes e c k :: real
  shows "\<bar>e - c\<bar> \<le> k \<Longrightarrow> c - k \<le> e"
  by linarith

lemma small_of_square:
  fixes d :: real
  assumes "d\<^sup>2 \<le> 1 / 10 ^ 6"
  shows "\<bar>d\<bar> \<le> 1 / 1000"
proof -
  have "d\<^sup>2 \<le> (1 / 1000)\<^sup>2" using assms by (simp add: power2_eq_square)
  then show ?thesis by (rule power2_le_imp_le[of "\<bar>d\<bar>", simplified]) simp
qed

text \<open>The arithmetic core: bounds on the five rounded results.\<close>

lemma test_value_small:
  fixes dx dy a b a2 b2 s :: real
  defines "U \<equiv> 1 + 1 / 2 ^ 24" and "h \<equiv> 1 / 2 ^ 150"
  assumes D: "dx\<^sup>2 + dy\<^sup>2 \<le> 999999 / 10 ^ 12"
    and a: "\<bar>a\<bar> \<le> \<bar>dx\<bar> * U + h"
    and b: "\<bar>b\<bar> \<le> \<bar>dy\<bar> * U + h"
    and a2: "\<bar>a2\<bar> \<le> \<bar>a * a\<bar> * U + h"
    and b2: "\<bar>b2\<bar> \<le> \<bar>b * b\<bar> * U + h"
    and s: "\<bar>s\<bar> \<le> \<bar>a2 + b2\<bar> * U + h"
  shows "a * a \<le> 1" and "b * b \<le> 1" and "\<bar>a2 + b2\<bar> \<le> 1"
    and "s < 1 / 1000000 - (\<bar>1 / 1000000\<bar> / 2 ^ 24 + 1 / 2 ^ 150)"
proof -
  have U: "0 \<le> U" "U \<le> 2" and h: "0 \<le> h" "h \<le> 1 / 10 ^ 6" by (simp_all add: U_def h_def)
  have nn: "0 \<le> dx\<^sup>2" "0 \<le> dy\<^sup>2" by simp_all
  have "(999999::real) / 10 ^ 12 \<le> 1 / 10 ^ 6" by simp
  with D nn have d2: "dx\<^sup>2 \<le> 1 / 10 ^ 6" "dy\<^sup>2 \<le> 1 / 10 ^ 6" by linarith+
  have t: "\<bar>dx\<bar> \<le> 1 / 1000" "\<bar>dy\<bar> \<le> 1 / 1000"
    by (rule small_of_square[OF d2(1)], rule small_of_square[OF d2(2)])
  have sq: "c * c \<le> d\<^sup>2 * U\<^sup>2 + (2 * U * h / 1000 + h\<^sup>2)"
    if c: "\<bar>c\<bar> \<le> \<bar>d\<bar> * U + h" and d: "\<bar>d\<bar> \<le> 1 / 1000" for c d :: real
  proof -
    have "c * c = \<bar>c\<bar>\<^sup>2" by (simp add: power2_eq_square)
    also have "\<dots> \<le> (\<bar>d\<bar> * U + h)\<^sup>2" using c by (intro power_mono) simp_all
    also have "\<dots> = d\<^sup>2 * U\<^sup>2 + (2 * U * h * \<bar>d\<bar> + h\<^sup>2)"
      by (simp add: power2_eq_square algebra_simps)
    also have "\<dots> \<le> d\<^sup>2 * U\<^sup>2 + (2 * U * h * (1 / 1000) + h\<^sup>2)"
      using d U h by (intro add_left_mono add_right_mono mult_left_mono) simp_all
    finally show ?thesis by simp
  qed
  note sa = sq[OF a t(1)] and sb = sq[OF b t(2)]
  define M where "M = 999999 / 10 ^ 12 * U\<^sup>2 + 2 * (2 * U * h / 1000 + h\<^sup>2)"
  have "a * a + b * b \<le> (dx\<^sup>2 + dy\<^sup>2) * U\<^sup>2 + 2 * (2 * U * h / 1000 + h\<^sup>2)"
    using sa sb by (simp add: algebra_simps)
  also have "\<dots> \<le> M"
    unfolding M_def using D by (intro add_right_mono mult_right_mono) simp_all
  finally have ab: "a * a + b * b \<le> M" .
  have M1: "M \<le> 1 / 4" by (simp add: M_def U_def h_def power2_eq_square)
  have aa: "0 \<le> a * a" "0 \<le> b * b" by simp_all
  from ab M1 aa show "a * a \<le> 1" "b * b \<le> 1" by linarith+
  have "\<bar>a2 + b2\<bar> \<le> \<bar>a2\<bar> + \<bar>b2\<bar>" by simp
  also have "\<dots> \<le> (a * a + b * b) * U + 2 * h"
    using a2 b2 aa by (simp add: algebra_simps abs_mult)
  also have "\<dots> \<le> M * U + 2 * h"
    using ab U by (intro add_right_mono mult_right_mono) simp_all
  finally have sum: "\<bar>a2 + b2\<bar> \<le> M * U + 2 * h" .
  have "M * U + 2 * h \<le> 1" by (simp add: M_def U_def h_def power2_eq_square)
  with sum show "\<bar>a2 + b2\<bar> \<le> 1" by simp
  have "\<bar>s\<bar> \<le> (M * U + 2 * h) * U + h"
    using s sum U by (meson add_right_mono mult_right_mono order_trans)
  then have "s \<le> (M * U + 2 * h) * U + h" by simp
  moreover have "(M * U + 2 * h) * U + h
      < 1 / 1000000 - (\<bar>1 / 1000000 :: real\<bar> / 2 ^ 24 + 1 / 2 ^ 150)"
    by (simp add: M_def U_def h_def power2_eq_square)
  ultimately show "s < 1 / 1000000 - (\<bar>1 / 1000000\<bar> / 2 ^ 24 + 1 / 2 ^ 150)"
    by (rule le_less_trans)
qed


lemma passed_test_far:
  assumes acc: "float_accurate (round_float E)"
    and test: "exceeds_threshold E \<lparr>Vec2_x = Fin px, Vec2_y = Fin py\<rparr>
                 \<lparr>Vec2_x = Fin lx, Vec2_y = Fin ly\<rparr>"
  shows "threshold_floor < (px - lx)\<^sup>2 + (py - ly)\<^sup>2"
proof (rule ccontr)
  let ?r = "round_float E"
  assume "\<not> threshold_floor < (px - lx)\<^sup>2 + (py - ly)\<^sup>2"
  then have D: "(px - lx)\<^sup>2 + (py - ly)\<^sup>2 \<le> 999999 / 10 ^ 12"
    by (simp add: threshold_floor_def)
  have nn: "0 \<le> (px - lx)\<^sup>2" "0 \<le> (py - ly)\<^sup>2" by simp_all
  have "(999999::real) / 10 ^ 12 \<le> 1 / 10 ^ 6" by simp
  with D nn have d2: "(px - lx)\<^sup>2 \<le> 1 / 10 ^ 6" "(py - ly)\<^sup>2 \<le> 1 / 10 ^ 6" by linarith+
  have "\<bar>px - lx\<bar> \<le> 1 / 1000" "\<bar>py - ly\<bar> \<le> 1 / 1000"
    by (rule small_of_square[OF d2(1)], rule small_of_square[OF d2(2)])
  then have "\<bar>px - lx\<bar> < 2 ^ 127" "\<bar>py - ly\<bar> < 2 ^ 127" by simp_all
  then obtain a b where a: "?r (px - lx) = Fin a" "\<bar>a - (px - lx)\<bar> \<le> \<bar>px - lx\<bar> / 2 ^ 24 + 1 / 2 ^ 150"
    and b: "?r (py - ly) = Fin b" "\<bar>b - (py - ly)\<bar> \<le> \<bar>py - ly\<bar> / 2 ^ 24 + 1 / 2 ^ 150"
    using accurate_fin[OF acc] by metis
  note a' = abs_le_of_accurate[OF a(2)] and b' = abs_le_of_accurate[OF b(2)]
  have z: "\<bar>0::real\<bar> \<le> \<bar>v\<bar> * (1 + 1 / 2 ^ 24) + 1 / 2 ^ 150" for v :: real
    by (simp add: add_nonneg_nonneg)
  from test_value_small(1,2)[OF D a' b' z z z]
  have "a * a \<le> 1" "b * b \<le> 1" .
  then have "\<bar>a * a\<bar> < 2 ^ 127" "\<bar>b * b\<bar> < 2 ^ 127" by simp_all
  then obtain a2 b2 where a2: "?r (a * a) = Fin a2" "\<bar>a2 - a * a\<bar> \<le> \<bar>a * a\<bar> / 2 ^ 24 + 1 / 2 ^ 150"
    and b2: "?r (b * b) = Fin b2" "\<bar>b2 - b * b\<bar> \<le> \<bar>b * b\<bar> / 2 ^ 24 + 1 / 2 ^ 150"
    using accurate_fin[OF acc] by metis
  note a2' = abs_le_of_accurate[OF a2(2)] and b2' = abs_le_of_accurate[OF b2(2)]
  from test_value_small(3)[OF D a' b' a2' b2' z]
  have "\<bar>a2 + b2\<bar> \<le> 1" .
  then have "\<bar>a2 + b2\<bar> < 2 ^ 127" by simp
  then obtain s where s: "?r (a2 + b2) = Fin s" "\<bar>s - (a2 + b2)\<bar> \<le> \<bar>a2 + b2\<bar> / 2 ^ 24 + 1 / 2 ^ 150"
    using accurate_fin[OF acc] by metis
  note s' = abs_le_of_accurate[OF s(2)]
  have "\<bar>1 / 1000000 :: real\<bar> < 2 ^ 127" by simp
  then obtain e where e: "?r (1 / 1000000) = Fin e"
    "\<bar>e - 1 / 1000000\<bar> \<le> \<bar>1 / 1000000\<bar> / 2 ^ 24 + 1 / 2 ^ 150"
    using accurate_fin[OF acc] by metis
  note e_low = lower_of_abs[OF e(2)]
  from test_value_small(4)[OF D a' b' a2' b2' s'] e_low
  have "s < e" by (rule less_le_trans)
  moreover from test have "e < s"
    by (simp add: exceeds_threshold_def epsilon_def fp_sub_def Let_def a(1) b(1) a2(1) b2(1) s(1) e(1))
  ultimately show False by simp
qed

lemma spaced_apart:
  "float_accurate (round_float E) \<Longrightarrow> spaced E ps \<Longrightarrow> apart threshold_floor ps"
proof (induction E ps rule: spaced.induct)
  case (3 E p q rest)
  then have t: "exceeds_threshold E q p" and rest: "apart threshold_floor (q # rest)" by simp_all
  have "case sq_dist q p of Some d \<Rightarrow> threshold_floor < d | None \<Rightarrow> True"
  proof (cases "sq_dist q p")
    case None
    then show ?thesis by simp
  next
    case (Some d)
    then obtain qx qy px py where c: "Vec2_x q = Fin qx" "Vec2_y q = Fin qy"
        "Vec2_x p = Fin px" "Vec2_y p = Fin py" and d: "d = (qx - px)\<^sup>2 + (qy - py)\<^sup>2"
      by (auto simp: sq_dist_def split: fpval.splits)
    have "q = \<lparr>Vec2_x = Fin qx, Vec2_y = Fin qy\<rparr>" "p = \<lparr>Vec2_x = Fin px, Vec2_y = Fin py\<rparr>"
      using c by simp_all
    with t passed_test_far[OF "3.prems"(1), of qx qy px py] have "threshold_floor < d"
      unfolding d by simp
    with Some show ?thesis by simp
  qed
  with rest show ?case by simp
qed simp_all


text \<open>The facts that evaluate the IEEE rounding at a number.\<close>

lemmas ieee_eval = double_round_def float_round_def ieee_round_def fexp_def exp_up.simps
  exp_down.simps round_half_even_def Let_def

section \<open>The stroke capture: press, moves, release\<close>

lemma spaced_snoc:
  "spaced E (xs @ [p]) = (spaced E xs \<and> (xs \<noteq> [] \<longrightarrow> exceeds_threshold E p (last xs)))"
  by (induction E xs rule: spaced.induct) auto

lemma spaced_tl: "spaced E xs \<Longrightarrow> spaced E (tl xs)"
  by (induction E xs rule: spaced.induct) auto

lemma cursor_pos_cb_held:
  assumes "g_mouse_down s" "g_current s \<noteq> []" "spaced E (g_current s)"
  shows "g_mouse_down (cursor_pos_cb E s x y)"
    and "g_current (cursor_pos_cb E s x y) \<noteq> []"
    and "spaced E (g_current (cursor_pos_cb E s x y))"
    and "length (g_current (cursor_pos_cb E s x y)) \<le> Suc (length (g_current s))"
    and "g_strokes (cursor_pos_cb E s x y) = g_strokes s"
  using assms by (simp_all add: cursor_pos_cb_def Let_def spaced_snoc)

lemma cursor_moves_held:
  assumes "g_mouse_down s" "g_current s \<noteq> []" "spaced E (g_current s)"
  shows "g_current (cursor_moves E s ms) \<noteq> []
       \<and> spaced E (g_current (cursor_moves E s ms))
       \<and> length (g_current (cursor_moves E s ms)) \<le> length (g_current s) + length ms
       \<and> g_strokes (cursor_moves E s ms) = g_strokes s"
  using assms
proof (induction ms arbitrary: s)
  case Nil
  then show ?case by (simp add: cursor_moves_def)
next
  case (Cons m ms)
  let ?s1 = "cursor_pos_cb E s (fst m) (snd m)"
  have step: "cursor_moves E s (m # ms) = cursor_moves E ?s1 ms"
    by (simp add: cursor_moves_def)
  from cursor_pos_cb_held[OF Cons.prems, of "fst m" "snd m"]
  have h: "g_mouse_down ?s1" "g_current ?s1 \<noteq> []" "spaced E (g_current ?s1)"
    "length (g_current ?s1) \<le> Suc (length (g_current s))" "g_strokes ?s1 = g_strokes s"
    by simp_all
  from Cons.IH[OF h(1-3)] h(4,5) show ?case
    unfolding step by simp
qed

lemma press_state:
  "g_mouse_down (mouse_button_cb E s GLFW_MOUSE_BUTTON_LEFT GLFW_PRESS c0)"
  "g_current (mouse_button_cb E s GLFW_MOUSE_BUTTON_LEFT GLFW_PRESS c0) = [wnd_to_ndc E s (fst c0) (snd c0)]"
  "g_strokes (mouse_button_cb E s GLFW_MOUSE_BUTTON_LEFT GLFW_PRESS c0) = g_strokes s"
  by (simp_all add: mouse_button_cb_def)

lemma release_state:
  "g_current s \<noteq> [] \<Longrightarrow>
   g_strokes (mouse_button_cb E s GLFW_MOUSE_BUTTON_LEFT GLFW_RELEASE c1) = g_strokes s @ [g_current s]"
  by (simp add: mouse_button_cb_def GLFW_PRESS_def GLFW_RELEASE_def)

lemma gesture_appends_spaced_stroke:
  "\<exists>stroke. g_strokes (press_moves_release E s c0 ms c1) = g_strokes s @ [stroke]
      \<and> stroke \<noteq> [] \<and> length stroke \<le> length ms + 1 \<and> spaced E stroke"
proof -
  let ?s0 = "mouse_button_cb E s GLFW_MOUSE_BUTTON_LEFT GLFW_PRESS c0"
  let ?s1 = "cursor_moves E ?s0 ms"
  have "g_mouse_down ?s0" "g_current ?s0 \<noteq> []" "spaced E (g_current ?s0)"
    by (simp_all add: press_state)
  from cursor_moves_held[OF this, of ms]
  have m: "g_current ?s1 \<noteq> []" "spaced E (g_current ?s1)"
    "length (g_current ?s1) \<le> length ms + 1" "g_strokes ?s1 = g_strokes s"
    by (simp_all add: press_state)
  have "g_strokes (press_moves_release E s c0 ms c1) = g_strokes s @ [g_current ?s1]"
    unfolding press_moves_release_def using release_state[OF m(1)] m(4) by simp
  with m show ?thesis by blast
qed

text \<open>
  A gesture in IEEE arithmetic: the viewport is 2000 by 1000, the press is at
  \<open>(500, 500)\<close>, the cursor moves to \<open>x = 999.9453125\<close> and then to
  \<open>x = 1000.9453125\<close>. Both moves pass the test and the stroke has three points.
\<close>

lemma ieee_gesture:
  "g_strokes (press_moves_release ieee_env (initial_canvas\<lparr>g_win_w := 2000, g_win_h := 1000\<rparr>)
      (Fin 500, Fin 500) [(Fin (127993 / 128), Fin 500), (Fin (128121 / 128), Fin 500)]
      (Fin (128121 / 128), Fin 500))
   = [[pt (- 1 / 2) 0, pt (- 7516193 / 137438953472) 0, pt (16240345 / 17179869184) 0]]"
  by (simp add: press_moves_release_def cursor_moves_def mouse_button_cb_def cursor_pos_cb_def
        wnd_to_ndc_def exceeds_threshold_def epsilon_def ieee_env_def initial_canvas_def
        int_to_double_def fp_sub_def GLFW_PRESS_def GLFW_RELEASE_def GLFW_MOUSE_BUTTON_LEFT_def
        pt_def ieee_eval)

text \<open>
  Claim C1, as stated, fails. In the stroke of that gesture the second and the third
  point are at the exact squared distance \<open>(137438953 / 137438953472)\<^sup>2\<close>, about
  \<open>9.99999993 \<times> 10\<^sup>-\<^sup>7\<close>, which is below the threshold \<^verbatim>\<open>1e-6f\<close> (and below
  \<open>10\<^sup>-\<^sup>6\<close>): the test passed because the difference of the coordinates is rounded
  upwards.
\<close>

theorem press_moves_release_stroke_counterexample:
  "g_strokes (press_moves_release ieee_env (initial_canvas\<lparr>g_win_w := 2000, g_win_h := 1000\<rparr>)
      (Fin 500, Fin 500) [(Fin (127993 / 128), Fin 500), (Fin (128121 / 128), Fin 500)]
      (Fin (128121 / 128), Fin 500))
     = [[pt (- 1 / 2) 0, pt (- 7516193 / 137438953472) 0, pt (16240345 / 17179869184) 0]]
   \<and> sq_dist (pt (16240345 / 17179869184) 0) (pt (- 7516193 / 137438953472) 0)
       = Some ((137438953 / 137438953472)\<^sup>2)
   \<and> epsilon ieee_env = Fin (8796093 / 8796093022208)
   \<and> (137438953 / 137438953472 :: real)\<^sup>2 < 8796093 / 8796093022208
   \<and> (8796093 / 8796093022208 :: real) < 1 / 1000000"
proof -
  have d: "sq_dist (pt (16240345 / 17179869184) 0) (pt (- 7516193 / 137438953472) 0)
       = Some ((137438953 / 137438953472)\<^sup>2)"
    by (simp add: sq_dist_def pt_def)
  have e: "epsilon ieee_env = Fin (8796093 / 8796093022208)"
    by (simp add: epsilon_def ieee_env_def ieee_eval)
  have n: "(137438953 / 137438953472 :: real)\<^sup>2 < 8796093 / 8796093022208"
    "(8796093 / 8796093022208 :: real) < 1 / 1000000"
    by (simp_all add: power2_eq_square)
  from ieee_gesture d e n show ?thesis by blast
qed

text \<open>
  Claim C1, amended. From every state, a left-button press followed by \<open>N\<close> cursor
  moves and the release appends exactly one stroke to the finished strokes; it has
  between 1 and \<open>N + 1\<close> points, and every pair of neighbours after the first pair
  passed the threshold test as the program computes it, in \<^verbatim>\<open>float\<close> arithmetic. In
  arithmetic as accurate as \<^verbatim>\<open>float\<close>, the exact squared distance of such a pair with
  finite coordinates is above \<open>0.999999 \<times> 10\<^sup>-\<^sup>6\<close>. (The lemma
  \<open>gesture_appends_spaced_stroke\<close> shows that the first pair passed the test too.)
\<close>

theorem press_moves_release_stroke:
  "let s' = press_moves_release E s c0 ms c1; stroke = last (g_strokes s')
   in g_strokes s' = g_strokes s @ [stroke]
      \<and> 1 \<le> length stroke \<and> length stroke \<le> length ms + 1
      \<and> spaced E (tl stroke)
      \<and> (float_accurate (round_float E) \<longrightarrow> apart threshold_floor (tl stroke))"
proof -
  obtain stroke where st: "g_strokes (press_moves_release E s c0 ms c1) = g_strokes s @ [stroke]"
    "stroke \<noteq> []" "length stroke \<le> length ms + 1" "spaced E stroke"
    using gesture_appends_spaced_stroke by blast
  have "1 \<le> length stroke" using st(2) by (cases stroke) simp_all
  moreover have "float_accurate (round_float E) \<longrightarrow> apart threshold_floor (tl stroke)"
    using spaced_apart[OF _ spaced_tl[OF st(4)]] by blast
  ultimately show ?thesis using st spaced_tl[OF st(4)] by (simp add: Let_def)
qed

theorem press_moves_release_stroke_witness:
  "float_accurate (round_float ieee_env)
   \<and> last (g_strokes (press_moves_release ieee_env
        (initial_canvas\<lparr>g_win_w := 2000, g_win_h := 1000\<rparr>)
        (Fin 500, Fin 500) [(Fin (127993 / 128), Fin 500), (Fin (128121 / 128), Fin 500)]
        (Fin (128121 / 128), Fin 500)))
     = [pt (- 1 / 2) 0, pt (- 7516193 / 137438953472) 0, pt (16240345 / 17179869184) 0]
   \<and> spaced ieee_env [pt (- 7516193 / 137438953472) 0, pt (16240345 / 17179869184) 0]
   \<and> apart threshold_floor [pt (- 7516193 / 137438953472) 0, pt (16240345 / 17179869184) 0]"
proof -
  have acc: "float_accurate (round_float ieee_env)"
    using float_round_accurate by (simp add: ieee_env_def)
  from press_moves_release_stroke[of ieee_env "initial_canvas\<lparr>g_win_w := 2000, g_win_h := 1000\<rparr>"
      "(Fin 500, Fin 500)" "[(Fin (127993 / 128), Fin 500), (Fin (128121 / 128), Fin 500)]"
      "(Fin (128121 / 128), Fin 500)"] acc
  show ?thesis unfolding Let_def ieee_gesture by simp
qed

section \<open>The threshold invariant of the in-progress stroke\<close>

lemma mouse_button_cb_spaced:
  "spaced E (g_current s) \<Longrightarrow> spaced E (g_current (mouse_button_cb E s button action cur))"
  by (simp add: mouse_button_cb_def)

lemma cursor_pos_cb_spaced:
  "spaced E (g_current s) \<Longrightarrow> spaced E (g_current (cursor_pos_cb E s x y))"
  by (simp add: cursor_pos_cb_def Let_def spaced_snoc)

lemma framebuffer_size_cb_strokes:
  "g_current (fst (framebuffer_size_cb s w h)) = g_current s"
  "g_strokes (fst (framebuffer_size_cb s w h)) = g_strokes s"
  "g_mouse_down (fst (framebuffer_size_cb s w h)) = g_mouse_down s"
  by (simp_all add: framebuffer_size_cb_def)

lemma cursor_pos_cb_append:
  assumes "g_current s \<noteq> []" "g_current (cursor_pos_cb E s x y) = g_current s @ [p]"
  shows "exceeds_threshold E p (last (g_current s))"
  using assms by (auto simp: cursor_pos_cb_def Let_def split: if_splits)

lemma mouse_button_cb_no_append:
  assumes "g_current s \<noteq> []"
  shows "g_current (mouse_button_cb E s button action cur) \<noteq> g_current s @ [p]"
  using assms by (cases "g_current s") (auto simp: mouse_button_cb_def)

text \<open>The two appends that are not tested: a press stores the cursor position as the
  only point of the in-progress stroke, and a cursor move with the button held and an
  empty in-progress stroke stores its point.\<close>

lemma press_starts_stroke:
  "g_current (mouse_button_cb E s GLFW_MOUSE_BUTTON_LEFT GLFW_PRESS cur)
     = [wnd_to_ndc E s (fst cur) (snd cur)]"
  by (simp add: mouse_button_cb_def)

lemma move_starts_stroke:
  "g_mouse_down s \<Longrightarrow> g_current s = [] \<Longrightarrow>
   g_current (cursor_pos_cb E s x y) = [wnd_to_ndc E s x y]"
  by (simp add: cursor_pos_cb_def Let_def)

text \<open>
  Claim C2, as stated, fails: it covers every append, and the program appends the first
  point of a stroke with no test. In IEEE arithmetic, a press at \<open>(400, 300)\<close>, the
  release and a second press at the same place: the second press appends the point
  \<open>(0, 0)\<close>, at squared distance 0 from the point recorded before it, the last point of
  the finished stroke. Likewise a cursor move at that place after a press there and a
  clear appends \<open>(0, 0)\<close> again. The test would have refused the point.
\<close>

theorem in_progress_threshold_invariant_counterexample:
  "g_strokes (mouse_button_cb ieee_env
      (mouse_button_cb ieee_env initial_canvas GLFW_MOUSE_BUTTON_LEFT GLFW_PRESS (Fin 400, Fin 300))
      GLFW_MOUSE_BUTTON_LEFT GLFW_RELEASE (Fin 400, Fin 300)) = [[pt 0 0]]
   \<and> g_current (mouse_button_cb ieee_env
      (mouse_button_cb ieee_env
        (mouse_button_cb ieee_env initial_canvas GLFW_MOUSE_BUTTON_LEFT GLFW_PRESS (Fin 400, Fin 300))
        GLFW_MOUSE_BUTTON_LEFT GLFW_RELEASE (Fin 400, Fin 300))
      GLFW_MOUSE_BUTTON_LEFT GLFW_PRESS (Fin 400, Fin 300)) = [pt 0 0]
   \<and> g_current (cursor_pos_cb ieee_env
      (clear_canvas
        (mouse_button_cb ieee_env initial_canvas GLFW_MOUSE_BUTTON_LEFT GLFW_PRESS (Fin 400, Fin 300)))
      (Fin 400) (Fin 300)) = [pt 0 0]
   \<and> sq_dist (pt 0 0) (pt 0 0) = Some 0
   \<and> \<not> exceeds_threshold ieee_env (pt 0 0) (pt 0 0)"
  by (simp add: mouse_button_cb_def cursor_pos_cb_def clear_canvas_def wnd_to_ndc_def
        exceeds_threshold_def epsilon_def ieee_env_def initial_canvas_def int_to_double_def
        fp_sub_def GLFW_PRESS_def GLFW_RELEASE_def GLFW_MOUSE_BUTTON_LEFT_def pt_def sq_dist_def
        ieee_eval)

text \<open>
  Claim C2, amended. The first point of a stroke is appended with no test: by a press,
  which always starts a new stroke, and by a cursor move when the button is held and
  the in-progress stroke is empty. A cursor move that appends a point to a non-empty
  in-progress stroke appends a point that passed the threshold test, as the program
  computes it, against the last one; the mouse-button callback never extends a non-empty
  stroke. So the invariant \<open>spaced\<close> of the in-progress stroke (each point but the
  first passed the test against the point before it) is kept by every operation on the
  canvas: the mouse-button callback with any button and action, the cursor callback,
  the resize callback and the clear command. In arithmetic as accurate as
  \<^verbatim>\<open>float\<close>, every two neighbours with finite coordinates are then at an exact squared
  distance above the fixed threshold \<open>0.999999 \<times> 10\<^sup>-\<^sup>6\<close>.
\<close>

theorem in_progress_threshold_invariant:
  "(spaced E (g_current s) \<longrightarrow>
      spaced E (g_current (mouse_button_cb E s button action cur))
    \<and> spaced E (g_current (cursor_pos_cb E s x y))
    \<and> spaced E (g_current (fst (framebuffer_size_cb s w h)))
    \<and> spaced E (g_current (clear_canvas s)))
   \<and> (g_current s \<noteq> [] \<longrightarrow>
        (g_current (cursor_pos_cb E s x y) = g_current s @ [p]
           \<longrightarrow> exceeds_threshold E p (last (g_current s)))
      \<and> g_current (mouse_button_cb E s button action cur) \<noteq> g_current s @ [p])
   \<and> g_current (mouse_button_cb E s GLFW_MOUSE_BUTTON_LEFT GLFW_PRESS cur)
       = [wnd_to_ndc E s (fst cur) (snd cur)]
   \<and> (g_mouse_down s \<and> g_current s = [] \<longrightarrow>
        g_current (cursor_pos_cb E s x y) = [wnd_to_ndc E s x y])
   \<and> (float_accurate (round_float E) \<and> spaced E (g_current s) \<longrightarrow>
        apart threshold_floor (g_current (mouse_button_cb E s button action cur))
      \<and> apart threshold_floor (g_current (cursor_pos_cb E s x y))
      \<and> apart threshold_floor (g_current (fst (framebuffer_size_cb s w h)))
      \<and> apart threshold_floor (g_current (clear_canvas s)))"
proof -
  have inv: "spaced E (g_current s) \<longrightarrow>
      spaced E (g_current (mouse_button_cb E s button action cur))
    \<and> spaced E (g_current (cursor_pos_cb E s x y))
    \<and> spaced E (g_current (fst (framebuffer_size_cb s w h)))
    \<and> spaced E (g_current (clear_canvas s))"
    using mouse_button_cb_spaced cursor_pos_cb_spaced
    by (simp add: framebuffer_size_cb_strokes clear_canvas_def)
  have app: "g_current s \<noteq> [] \<longrightarrow>
        (g_current (cursor_pos_cb E s x y) = g_current s @ [p]
           \<longrightarrow> exceeds_threshold E p (last (g_current s)))
      \<and> g_current (mouse_button_cb E s button action cur) \<noteq> g_current s @ [p]"
    using cursor_pos_cb_append mouse_button_cb_no_append by blast
  have first: "g_mouse_down s \<and> g_current s = [] \<longrightarrow>
        g_current (cursor_pos_cb E s x y) = [wnd_to_ndc E s x y]"
    using move_starts_stroke by blast
  have far: "float_accurate (round_float E) \<and> spaced E (g_current s) \<longrightarrow>
        apart threshold_floor (g_current (mouse_button_cb E s button action cur))
      \<and> apart threshold_floor (g_current (cursor_pos_cb E s x y))
      \<and> apart threshold_floor (g_current (fst (framebuffer_size_cb s w h)))
      \<and> apart threshold_floor (g_current (clear_canvas s))"
    using inv spaced_apart by blast
  from inv app press_starts_stroke[of E s cur] first far show ?thesis by blast
qed

theorem in_progress_threshold_invariant_witness:
  "spaced ieee_env [pt 0 0]
   \<and> float_accurate (round_float ieee_env)
   \<and> g_current (cursor_pos_cb ieee_env
        (initial_canvas\<lparr>g_mouse_down := True, g_current := [pt 0 0]\<rparr>) (Fin 480) (Fin 300))
     = [pt 0 0, pt (13421773 / 67108864) 0]
   \<and> exceeds_threshold ieee_env (pt (13421773 / 67108864) 0) (pt 0 0)
   \<and> apart threshold_floor [pt 0 0, pt (13421773 / 67108864) 0]
   \<and> g_current (cursor_pos_cb ieee_env (initial_canvas\<lparr>g_mouse_down := True\<rparr>) (Fin 480) (Fin 300))
     = [pt (13421773 / 67108864) 0]"
proof -
  let ?s = "initial_canvas\<lparr>g_mouse_down := True, g_current := [pt 0 0]\<rparr>"
  have acc: "float_accurate (round_float ieee_env)"
    using float_round_accurate by (simp add: ieee_env_def)
  have p: "wnd_to_ndc ieee_env s (Fin 480) (Fin 300) = pt (13421773 / 67108864) 0"
    if "g_win_w s = 800" "g_win_h s = 600" for s
    using that
    by (simp add: wnd_to_ndc_def ieee_env_def int_to_double_def fp_sub_def pt_def ieee_eval)
  have t: "exceeds_threshold ieee_env (pt (13421773 / 67108864) 0) (pt 0 0)"
    by (simp add: exceeds_threshold_def epsilon_def ieee_env_def fp_sub_def pt_def ieee_eval)
  have ev: "g_current (cursor_pos_cb ieee_env ?s (Fin 480) (Fin 300))
     = [pt 0 0, pt (13421773 / 67108864) 0]"
    using t by (simp add: cursor_pos_cb_def Let_def p initial_canvas_def)
  have ev0: "g_current (cursor_pos_cb ieee_env (initial_canvas\<lparr>g_mouse_down := True\<rparr>) (Fin 480) (Fin 300))
     = [pt (13421773 / 67108864) 0]"
    by (simp add: cursor_pos_cb_def Let_def p initial_canvas_def)
  have sp: "spaced ieee_env [pt 0 0]" by simp
  from in_progress_threshold_invariant[of ieee_env ?s GLFW_MOUSE_BUTTON_LEFT GLFW_PRESS
      "(Fin 0, Fin 0)" "Fin 480" "Fin 300" 800 600 "pt (13421773 / 67108864) 0"] acc sp
  have "apart threshold_floor (g_current (cursor_pos_cb ieee_env ?s (Fin 480) (Fin 300)))"
    by simp
  with ev have ap: "apart threshold_floor [pt 0 0, pt (13421773 / 67108864) 0]" by simp
  from sp acc ev t ap ev0 show ?thesis by blast
qed


text \<open>The invariant also holds along the main loop.\<close>

lemma dispatch_spaced:
  "spaced E (g_current (globals a)) \<Longrightarrow> spaced E (g_current (globals (dispatch E a ev)))"
  by (cases ev)
     (simp_all add: dispatch_def mouse_button_cb_spaced cursor_pos_cb_spaced
        framebuffer_size_cb_def)

lemma glfwPollEvents_spaced:
  "spaced E (g_current (globals a)) \<Longrightarrow> spaced E (g_current (globals (glfwPollEvents E a evs)))"
  unfolding glfwPollEvents_def
  by (induction evs arbitrary: a) (simp_all add: dispatch_spaced)

lemma main_loop_body_spaced:
  "spaced E (g_current (globals a)) \<Longrightarrow> spaced E (g_current (globals (main_loop_body E H a inp)))"
  using glfwPollEvents_spaced[of E a "pending inp"]
  by (simp add: main_loop_body_def Let_def clear_canvas_def)

lemma main_loop_spaced:
  "spaced E (g_current (globals a)) \<Longrightarrow> main_loop E H a frames = Some a' \<Longrightarrow>
   spaced E (g_current (globals a'))"
proof (induction frames arbitrary: a)
  case Nil
  then show ?case by (simp split: if_splits)
next
  case (Cons inp frames)
  show ?case
  proof (cases "window_should_close a")
    case True
    with Cons.prems show ?thesis by simp
  next
    case False
    with Cons.prems have "main_loop E H (main_loop_body E H a inp) frames = Some a'" by simp
    from Cons.IH[OF main_loop_body_spaced[OF Cons.prems(1)] this] show ?thesis .
  qed
qed

section \<open>Pointer-up\<close>

text \<open>
  Claim C3. The release of the left button leaves the in-progress stroke empty. A
  non-empty in-progress stroke becomes the last finished stroke, in particular one with
  exactly one point; an empty one is not added, so a list of finished strokes without
  an empty stroke stays so.
\<close>

theorem release_moves_stroke:
  "let s' = mouse_button_cb E s GLFW_MOUSE_BUTTON_LEFT GLFW_RELEASE cur
   in g_current s' = []
      \<and> (g_current s \<noteq> [] \<longrightarrow> g_strokes s' = g_strokes s @ [g_current s])
      \<and> (g_current s = [] \<longrightarrow> g_strokes s' = g_strokes s)
      \<and> (length (g_current s) = 1 \<longrightarrow> g_strokes s' = g_strokes s @ [g_current s])
      \<and> ([] \<notin> set (g_strokes s) \<longrightarrow> [] \<notin> set (g_strokes s'))"
  by (auto simp: mouse_button_cb_def GLFW_PRESS_def GLFW_RELEASE_def Let_def)

theorem release_moves_stroke_witness:
  "(let s = initial_canvas\<lparr>g_mouse_down := True, g_current := [\<lparr>Vec2_x = Fin 0, Vec2_y = Fin 0\<rparr>]\<rparr>;
        s' = mouse_button_cb exact_env s GLFW_MOUSE_BUTTON_LEFT GLFW_RELEASE (Fin 0, Fin 0)
    in g_current s' = [] \<and> g_strokes s' = [[\<lparr>Vec2_x = Fin 0, Vec2_y = Fin 0\<rparr>]])
   \<and> (let s = initial_canvas\<lparr>g_mouse_down := True\<rparr>;
        s' = mouse_button_cb exact_env s GLFW_MOUSE_BUTTON_LEFT GLFW_RELEASE (Fin 0, Fin 0)
    in g_current s' = [] \<and> g_strokes s' = [])"
  using release_moves_stroke[of exact_env
      "initial_canvas\<lparr>g_mouse_down := True, g_current := [\<lparr>Vec2_x = Fin 0, Vec2_y = Fin 0\<rparr>]\<rparr>"
      "(Fin 0, Fin 0)"]
    release_moves_stroke[of exact_env "initial_canvas\<lparr>g_mouse_down := True\<rparr>" "(Fin 0, Fin 0)"]
  by (simp add: Let_def initial_canvas_def)

text \<open>No other operation adds a stroke, so no run of the main loop adds an empty
  stroke to the finished ones.\<close>

lemma no_empty_stroke_dispatch:
  "[] \<notin> set (g_strokes (globals a)) \<Longrightarrow> [] \<notin> set (g_strokes (globals (dispatch E a ev)))"
  by (cases ev)
     (auto simp: dispatch_def mouse_button_cb_def cursor_pos_cb_def framebuffer_size_cb_def Let_def)

lemma no_empty_stroke_poll:
  "[] \<notin> set (g_strokes (globals a)) \<Longrightarrow> [] \<notin> set (g_strokes (globals (glfwPollEvents E a evs)))"
  unfolding glfwPollEvents_def
  by (induction evs arbitrary: a) (simp_all add: no_empty_stroke_dispatch)

lemma no_empty_stroke_main_loop_body:
  "[] \<notin> set (g_strokes (globals a)) \<Longrightarrow>
   [] \<notin> set (g_strokes (globals (main_loop_body E H a inp)))"
  using no_empty_stroke_poll[of a E "pending inp"]
  by (simp add: main_loop_body_def Let_def clear_canvas_def)


section \<open>Coordinate conversion at the corners\<close>

text \<open>With a viewport of width and height zero the conversion of the pixel \<open>(0, 0)\<close>
  divides zero by zero: both coordinates are NaN, whatever the rounding.\<close>

lemma wnd_to_ndc_zero_size:
  "g_win_w s = 0 \<Longrightarrow> g_win_h s = 0 \<Longrightarrow>
   wnd_to_ndc E s (Fin 0) (Fin 0) = \<lparr>Vec2_x = NaN, Vec2_y = NaN\<rparr>"
  by (simp add: wnd_to_ndc_def int_to_double_def fp_sub_def Let_def)

text \<open>The program reaches that state: a resize to \<open>0 \<times> 0\<close>, as for a minimised
  window, followed by a press records a point whose coordinates are NaN.\<close>

lemma zero_viewport_press:
  "g_current (globals (glfwPollEvents exact_env initial_app
      [FramebufferSize 0 0, MouseButton GLFW_MOUSE_BUTTON_LEFT GLFW_PRESS 0 (Fin 0, Fin 0)]))
   = [\<lparr>Vec2_x = NaN, Vec2_y = NaN\<rparr>]"
  by (simp add: glfwPollEvents_def dispatch_def framebuffer_size_cb_def mouse_button_cb_def
      initial_app_def initial_canvas_def wnd_to_ndc_zero_size)

text \<open>
  Claim C4, as stated, fails: it speaks of any viewport dimensions, and for the
  dimensions \<open>(0, 0)\<close>, which the resize callback stores when the window manager
  reports them, the pixel \<open>(0, 0)\<close> is not converted to \<open>(-1, 1)\<close>.
\<close>

theorem wnd_to_ndc_corners_counterexample:
  "wnd_to_ndc exact_env (initial_canvas\<lparr>g_win_w := 0, g_win_h := 0\<rparr>) (Fin 0) (Fin 0)
     = \<lparr>Vec2_x = NaN, Vec2_y = NaN\<rparr>
   \<and> wnd_to_ndc exact_env (initial_canvas\<lparr>g_win_w := 0, g_win_h := 0\<rparr>) (Fin 0) (Fin 0)
     \<noteq> \<lparr>Vec2_x = Fin (- 1), Vec2_y = Fin 1\<rparr>"
  by (simp add: wnd_to_ndc_def int_to_double_def fp_sub_def Let_def initial_canvas_def exact_env_def)

text \<open>
  Claim C4, amended. For a viewport whose width and height are not zero, and floating
  point formats that represent 0, 1, 2 and -1 (as \<^verbatim>\<open>double\<close> and \<^verbatim>\<open>float\<close> do), the
  pixel \<open>(0, 0)\<close> is converted to \<open>(-1, 1)\<close> and the pixel \<open>(width, height)\<close> to
  \<open>(1, -1)\<close>. The conversion reads nothing of the state but the viewport dimensions.
\<close>

theorem wnd_to_ndc_corners:
  assumes "g_win_w s \<noteq> 0" and "g_win_h s \<noteq> 0"
    and "exact_on (round_double E) [0, 1, 2, - 1]"
    and "exact_on (round_float E) [1, - 1]"
  shows "wnd_to_ndc E s (Fin 0) (Fin 0) = \<lparr>Vec2_x = Fin (- 1), Vec2_y = Fin 1\<rparr>
       \<and> wnd_to_ndc E s (int_to_double (g_win_w s)) (int_to_double (g_win_h s))
           = \<lparr>Vec2_x = Fin 1, Vec2_y = Fin (- 1)\<rparr>
       \<and> (g_win_w s' = g_win_w s \<and> g_win_h s' = g_win_h s
            \<longrightarrow> wnd_to_ndc E s' sx sy = wnd_to_ndc E s sx sy)"
  using assms
  by (simp add: wnd_to_ndc_def int_to_double_def fp_sub_def Let_def exact_on_def)

theorem wnd_to_ndc_corners_witness:
  "g_win_w initial_canvas \<noteq> 0 \<and> g_win_h initial_canvas \<noteq> 0
   \<and> exact_on (round_double exact_env) [0, 1, 2, - 1]
   \<and> exact_on (round_float exact_env) [1, - 1]
   \<and> wnd_to_ndc exact_env initial_canvas (Fin 0) (Fin 0) = \<lparr>Vec2_x = Fin (- 1), Vec2_y = Fin 1\<rparr>
   \<and> wnd_to_ndc exact_env initial_canvas (Fin 800) (Fin 600) = \<lparr>Vec2_x = Fin 1, Vec2_y = Fin (- 1)\<rparr>
   \<and> wnd_to_ndc exact_env (initial_canvas\<lparr>g_mouse_down := True\<rparr>) (Fin 400) (Fin 300)
       = wnd_to_ndc exact_env initial_canvas (Fin 400) (Fin 300)"
proof -
  have h: "g_win_w initial_canvas \<noteq> 0" "g_win_h initial_canvas \<noteq> 0"
    "exact_on (round_double exact_env) [0, 1, 2, - 1]"
    "exact_on (round_float exact_env) [1, - 1]"
    by (simp_all add: initial_canvas_def exact_env_def exact_on_def)
  from wnd_to_ndc_corners[OF h, of "initial_canvas\<lparr>g_mouse_down := True\<rparr>" "Fin 400" "Fin 300"] h
  show ?thesis by (simp add: int_to_double_def initial_canvas_def)
qed

section \<open>The clear command\<close>

text \<open>
  Claim C5. The block run by the clear command leaves no finished stroke and an empty
  in-progress stroke, whatever they were; so does an iteration of the main loop in which
  the key C is down, whatever the events of that iteration.
\<close>

theorem clear_empties_both:
  "g_strokes (clear_canvas s) = [] \<and> g_current (clear_canvas s) = []
   \<and> (key_c inp = GLFW_PRESS \<longrightarrow>
        g_strokes (globals (main_loop_body E H a inp)) = []
      \<and> g_current (globals (main_loop_body E H a inp)) = [])"
  by (simp add: clear_canvas_def main_loop_body_def Let_def)

theorem clear_empties_both_witness:
  "key_c \<lparr>pending = [], key_escape = GLFW_RELEASE, key_c = GLFW_PRESS\<rparr> = GLFW_PRESS
   \<and> globals (main_loop_body exact_env \<lparr>program = 3, color_loc = 0, vao = 1, vbo = 2\<rparr>
        \<lparr>globals = initial_canvas\<lparr>g_strokes := [[pt 0 0, pt 1 1]], g_current := [pt 0 1]\<rparr>,
         window_should_close = False, gl_calls = []\<rparr>
        \<lparr>pending = [], key_escape = GLFW_RELEASE, key_c = GLFW_PRESS\<rparr>)
     = initial_canvas"
proof -
  let ?inp = "\<lparr>pending = [], key_escape = GLFW_RELEASE, key_c = GLFW_PRESS\<rparr>"
  let ?a = "\<lparr>globals = initial_canvas\<lparr>g_strokes := [[pt 0 0, pt 1 1]], g_current := [pt 0 1]\<rparr>,
         window_should_close = False, gl_calls = []\<rparr>"
  let ?H = "\<lparr>program = 3, color_loc = 0, vao = 1, vbo = 2\<rparr>"
  have k: "key_c ?inp = GLFW_PRESS" by simp
  have rest: "g_win_w (globals (main_loop_body exact_env ?H ?a ?inp)) = 800"
    "g_win_h (globals (main_loop_body exact_env ?H ?a ?inp)) = 600"
    "g_mouse_down (globals (main_loop_body exact_env ?H ?a ?inp)) = False"
    by (simp_all add: main_loop_body_def glfwPollEvents_def clear_canvas_def initial_canvas_def
        GLFW_PRESS_def GLFW_RELEASE_def Let_def)
  from clear_empties_both[of "initial_canvas" ?inp exact_env ?H ?a] k rest
  show ?thesis by (simp add: initial_canvas_def canvas.equality)
qed

section \<open>Resize\<close>

text \<open>
  Claim C6. The resize callback stores the new width and height and changes nothing
  else of the globals: the finished strokes, the in-progress stroke and the mouse flag
  are as before, for every state and every new size.
\<close>

theorem resize_keeps_strokes:
  "fst (framebuffer_size_cb s w h) = s\<lparr>g_win_w := w, g_win_h := h\<rparr>
   \<and> g_strokes (fst (framebuffer_size_cb s w h)) = g_strokes s
   \<and> g_current (fst (framebuffer_size_cb s w h)) = g_current s
   \<and> g_mouse_down (fst (framebuffer_size_cb s w h)) = g_mouse_down s
   \<and> globals (dispatch E a (FramebufferSize w h)) = (globals a)\<lparr>g_win_w := w, g_win_h := h\<rparr>"
  by (simp add: framebuffer_size_cb_def dispatch_def)

theorem resize_keeps_strokes_witness:
  "fst (framebuffer_size_cb
         (initial_canvas\<lparr>g_strokes := [[pt 0 0, pt 1 1]], g_current := [pt 0 1]\<rparr>) 1024 768)
     = \<lparr>g_win_w = 1024, g_win_h = 768, g_mouse_down = False,
        g_strokes = [[pt 0 0, pt 1 1]], g_current = [pt 0 1]\<rparr>"
  using resize_keeps_strokes[of
      "initial_canvas\<lparr>g_strokes := [[pt 0 0, pt 1 1]], g_current := [pt 0 1]\<rparr>" 1024 768]
  by (simp add: initial_canvas_def)

section \<open>The render pass\<close>

lemma draw_finished_eq:
  "draw_finished H ss = concat (map (stroke_calls H) (filter (\<lambda>st. 2 \<le> length st) ss))"
  by (induction ss) (simp_all add: stroke_calls_def not_less)

lemma filter_stroke_calls:
  "filter is_stroke_call (concat (map (stroke_calls H) ss)) = concat (map (stroke_calls H) ss)"
  by (induction ss) (simp_all add: stroke_calls_def)

lemma filter_draw_calls:
  "length (filter is_draw_call (concat (map (stroke_calls H) ss))) = length ss"
  by (induction ss) (simp_all add: stroke_calls_def)

lemma render_eq:
  "render E H s =
     [GlClear, GlUseProgram (program H),
      GlUniform3f (color_loc H) (round_float E (5 / 100)) (round_float E (5 / 100))
        (round_float E (5 / 100)),
      GlBindVertexArray (vao H)]
     @ concat (map (stroke_calls H) (drawable s))
     @ [GlBindVertexArray 0, GlUseProgram 0, GlfwSwapBuffers]"
  by (simp add: render_def draw_finished_eq drawable_def stroke_calls_def)

text \<open>
  Claim C7. Among the calls of a render pass, those that bind the buffer, upload
  vertices or draw are exactly the three calls of each stroke with at least two points,
  the finished strokes in order and then the in-progress stroke; there are as many draw
  calls as such strokes. A stroke with fewer than two points causes no call.
\<close>

theorem render_draws_drawable:
  "filter is_stroke_call (render E H s) = concat (map (stroke_calls H) (drawable s))
   \<and> length (filter is_draw_call (render E H s)) = length (drawable s)
   \<and> set (drawable s) = {st \<in> set (g_strokes s) \<union> {g_current s}. 2 \<le> length st}"
proof -
  have 1: "filter is_stroke_call (render E H s) = concat (map (stroke_calls H) (drawable s))"
    unfolding render_eq by (simp add: filter_stroke_calls)
  have 2: "length (filter is_draw_call (render E H s)) = length (drawable s)"
    unfolding render_eq by (simp add: filter_draw_calls)
  have 3: "set (drawable s) = {st \<in> set (g_strokes s) \<union> {g_current s}. 2 \<le> length st}"
    by (auto simp: drawable_def)
  from 1 2 3 show ?thesis by blast
qed

theorem render_draws_drawable_witness:
  "filter is_stroke_call
     (render exact_env \<lparr>program = 3, color_loc = 0, vao = 1, vbo = 2\<rparr>
        (initial_canvas\<lparr>g_strokes := [[pt 0 0], [pt 0 0, pt 1 1]], g_current := [pt 0 1, pt 1 0, pt 1 1]\<rparr>))
   = [GlBindBuffer 2, GlBufferData 16 [pt 0 0, pt 1 1], GlDrawArrays 0 2,
      GlBindBuffer 2, GlBufferData 24 [pt 0 1, pt 1 0, pt 1 1], GlDrawArrays 0 3]"
  using render_draws_drawable[of exact_env "\<lparr>program = 3, color_loc = 0, vao = 1, vbo = 2\<rparr>"
      "initial_canvas\<lparr>g_strokes := [[pt 0 0], [pt 0 0, pt 1 1]], g_current := [pt 0 1, pt 1 0, pt 1 1]\<rparr>"]
  by (simp add: drawable_def stroke_calls_def sizeof_Vec2_def to_GLsizei_def)

section \<open>Start-up failures and shader errors\<close>

lemma main_started:
  "glfwInit_ok env \<Longrightarrow> window_created env \<Longrightarrow> glad_loaded env \<Longrightarrow>
   main E env frames =
     map_option (\<lambda>a. \<lparr>exit_status = 0, cerr = create_program env, issued = gl_calls a\<rparr>)
       (main_loop E (handles env) initial_app frames)"
  by (simp add: main_def initial_app_def split: option.splits)

text \<open>
  Claim C8. When the window cannot be created, or the OpenGL functions cannot be
  loaded, \<^verbatim>\<open>main\<close> writes its message to \<^verbatim>\<open>std::cerr\<close> and returns \<open>-1\<close>
  without entering the main loop, whatever the input. When start-up succeeds, a shader
  that does not compile or a program that does not link is reported on
  \<^verbatim>\<open>std::cerr\<close>, and the main loop runs, draws and ends as it does with working
  shaders.
\<close>

theorem fatal_startup_nonfatal_shaders:
  "(glfwInit_ok env \<and> \<not> window_created env \<longrightarrow>
      main E env frames =
        Some \<lparr>exit_status = - 1, cerr = ''Failed to create window'' @ endl, issued = []\<rparr>)
   \<and> (glfwInit_ok env \<and> window_created env \<and> \<not> glad_loaded env \<longrightarrow>
      main E env frames =
        Some \<lparr>exit_status = - 1, cerr = ''Failed to initialize GLAD'' @ endl, issued = []\<rparr>)
   \<and> (glfwInit_ok env \<and> window_created env \<and> glad_loaded env \<longrightarrow>
      main E env frames =
        map_option (\<lambda>a. \<lparr>exit_status = 0, cerr = create_program env, issued = gl_calls a\<rparr>)
          (main_loop E (handles env) initial_app frames)
      \<and> map_option (\<lambda>r. (exit_status r, issued r)) (main E env frames)
          = map_option (\<lambda>r. (exit_status r, issued r)) (main E (shaders_ok env) frames))
   \<and> create_program env =
        (if vertex_compiled env then [] else ''Shader compile error: '' @ vertex_info_log env @ endl)
        @ (if fragment_compiled env then []
           else ''Shader compile error: '' @ fragment_info_log env @ endl)
        @ (if program_linked env then [] else ''Program link error: '' @ program_info_log env @ endl)"
proof -
  have a: "glfwInit_ok env \<and> \<not> window_created env \<longrightarrow>
      main E env frames =
        Some \<lparr>exit_status = - 1, cerr = ''Failed to create window'' @ endl, issued = []\<rparr>"
    by (simp add: main_def)
  have b: "glfwInit_ok env \<and> window_created env \<and> \<not> glad_loaded env \<longrightarrow>
      main E env frames =
        Some \<lparr>exit_status = - 1, cerr = ''Failed to initialize GLAD'' @ endl, issued = []\<rparr>"
    by (simp add: main_def)
  have c: "glfwInit_ok env \<and> window_created env \<and> glad_loaded env \<longrightarrow>
      main E env frames =
        map_option (\<lambda>a. \<lparr>exit_status = 0, cerr = create_program env, issued = gl_calls a\<rparr>)
          (main_loop E (handles env) initial_app frames)
      \<and> map_option (\<lambda>r. (exit_status r, issued r)) (main E env frames)
          = map_option (\<lambda>r. (exit_status r, issued r)) (main E (shaders_ok env) frames)"
  proof (intro impI)
    assume h: "glfwInit_ok env \<and> window_created env \<and> glad_loaded env"
    then have h': "glfwInit_ok (shaders_ok env)" "window_created (shaders_ok env)"
      "glad_loaded (shaders_ok env)" "handles (shaders_ok env) = handles env"
      by (simp_all add: shaders_ok_def)
    from h have m1: "main E env frames =
        map_option (\<lambda>a. \<lparr>exit_status = 0, cerr = create_program env, issued = gl_calls a\<rparr>)
          (main_loop E (handles env) initial_app frames)"
      by (simp add: main_started)
    have m2: "main E (shaders_ok env) frames =
        map_option (\<lambda>a. \<lparr>exit_status = 0, cerr = create_program (shaders_ok env), issued = gl_calls a\<rparr>)
          (main_loop E (handles env) initial_app frames)"
      using main_started[OF h'(1-3), of E frames] h'(4) by simp
    show "main E env frames =
        map_option (\<lambda>a. \<lparr>exit_status = 0, cerr = create_program env, issued = gl_calls a\<rparr>)
          (main_loop E (handles env) initial_app frames)
      \<and> map_option (\<lambda>r. (exit_status r, issued r)) (main E env frames)
          = map_option (\<lambda>r. (exit_status r, issued r)) (main E (shaders_ok env) frames)"
      unfolding m2 using m1 by (simp add: option.map_comp comp_def)
  qed
  have d: "create_program env =
        (if vertex_compiled env then [] else ''Shader compile error: '' @ vertex_info_log env @ endl)
        @ (if fragment_compiled env then []
           else ''Shader compile error: '' @ fragment_info_log env @ endl)
        @ (if program_linked env then [] else ''Program link error: '' @ program_info_log env @ endl)"
    by (simp add: create_program_def compile_shader_def)
  from a b c d show ?thesis by blast
qed


theorem fatal_startup_nonfatal_shaders_witness:
  "main exact_env
     \<lparr>glfwInit_ok = True, window_created = False, glad_loaded = True,
      vertex_compiled = True, vertex_info_log = [], fragment_compiled = True,
      fragment_info_log = [], program_linked = True, program_info_log = [],
      handles = \<lparr>program = 3, color_loc = 0, vao = 1, vbo = 2\<rparr>\<rparr>
     [\<lparr>pending = [WindowClose], key_escape = GLFW_RELEASE, key_c = GLFW_RELEASE\<rparr>]
   = Some \<lparr>exit_status = - 1, cerr = ''Failed to create window'' @ endl, issued = []\<rparr>
   \<and> main exact_env
     \<lparr>glfwInit_ok = True, window_created = True, glad_loaded = False,
      vertex_compiled = True, vertex_info_log = [], fragment_compiled = True,
      fragment_info_log = [], program_linked = True, program_info_log = [],
      handles = \<lparr>program = 3, color_loc = 0, vao = 1, vbo = 2\<rparr>\<rparr>
     [\<lparr>pending = [WindowClose], key_escape = GLFW_RELEASE, key_c = GLFW_RELEASE\<rparr>]
   = Some \<lparr>exit_status = - 1, cerr = ''Failed to initialize GLAD'' @ endl, issued = []\<rparr>
   \<and> map_option (\<lambda>r. (exit_status r, cerr r)) (main exact_env
     \<lparr>glfwInit_ok = True, window_created = True, glad_loaded = True,
      vertex_compiled = False, vertex_info_log = ''bad'', fragment_compiled = True,
      fragment_info_log = [], program_linked = False, program_info_log = ''worse'',
      handles = \<lparr>program = 3, color_loc = 0, vao = 1, vbo = 2\<rparr>\<rparr>
     [\<lparr>pending = [WindowClose], key_escape = GLFW_RELEASE, key_c = GLFW_RELEASE\<rparr>])
   = Some (0, ''Shader compile error: bad'' @ endl @ ''Program link error: worse'' @ endl)"
proof -
  let ?H = "\<lparr>program = 3, color_loc = 0, vao = 1, vbo = 2\<rparr>"
  let ?fr = "[\<lparr>pending = [WindowClose], key_escape = GLFW_RELEASE, key_c = GLFW_RELEASE\<rparr>]"
  let ?e1 = "\<lparr>glfwInit_ok = True, window_created = False, glad_loaded = True,
      vertex_compiled = True, vertex_info_log = [], fragment_compiled = True,
      fragment_info_log = [], program_linked = True, program_info_log = [],
      handles = ?H\<rparr>"
  let ?e2 = "\<lparr>glfwInit_ok = True, window_created = True, glad_loaded = False,
      vertex_compiled = True, vertex_info_log = [], fragment_compiled = True,
      fragment_info_log = [], program_linked = True, program_info_log = [],
      handles = ?H\<rparr>"
  let ?e3 = "\<lparr>glfwInit_ok = True, window_created = True, glad_loaded = True,
      vertex_compiled = False, vertex_info_log = ''bad'', fragment_compiled = True,
      fragment_info_log = [], program_linked = False, program_info_log = ''worse'',
      handles = ?H\<rparr>"
  have loop: "main_loop exact_env ?H initial_app ?fr \<noteq> None"
    by (simp add: initial_app_def main_loop_body_def glfwPollEvents_def dispatch_def Let_def)
  from fatal_startup_nonfatal_shaders[of ?e1 exact_env ?fr]
  have 1: "main exact_env ?e1 ?fr
     = Some \<lparr>exit_status = - 1, cerr = ''Failed to create window'' @ endl, issued = []\<rparr>"
    by simp
  from fatal_startup_nonfatal_shaders[of ?e2 exact_env ?fr]
  have 2: "main exact_env ?e2 ?fr
     = Some \<lparr>exit_status = - 1, cerr = ''Failed to initialize GLAD'' @ endl, issued = []\<rparr>"
    by simp
  from fatal_startup_nonfatal_shaders[of ?e3 exact_env ?fr] loop
  have 3: "map_option (\<lambda>r. (exit_status r, cerr r)) (main exact_env ?e3 ?fr)
     = Some (0, ''Shader compile error: bad'' @ endl @ ''Program link error: worse'' @ endl)"
    by (auto simp: option.map_comp comp_def)
  from 1 2 3 show ?thesis by blast
qed


section \<open>Clearing while the button is held\<close>

text \<open>
  Claim C9. The clear command leaves the mouse flag as it is. When the button is held,
  the cursor move after a clear makes its point the only point of the in-progress
  stroke, with no threshold test; so it is for the first cursor move after an iteration
  of the main loop in which the key C was down and the button was held when the events
  of the iteration had been handled.
\<close>

theorem clear_while_held:
  "g_mouse_down (clear_canvas s) = g_mouse_down s
   \<and> (g_mouse_down s \<longrightarrow>
        g_current (cursor_pos_cb E (clear_canvas s) x y) = [wnd_to_ndc E s x y])
   \<and> (key_c inp = GLFW_PRESS \<and> g_mouse_down (globals (glfwPollEvents E a (pending inp))) \<longrightarrow>
        g_mouse_down (globals (main_loop_body E H a inp))
      \<and> g_current (globals (dispatch E (main_loop_body E H a inp) (CursorPos x y)))
          = [wnd_to_ndc E (globals (main_loop_body E H a inp)) x y])"
  by (simp add: clear_canvas_def cursor_pos_cb_def main_loop_body_def dispatch_def Let_def
      wnd_to_ndc_def)


theorem clear_while_held_witness:
  "g_mouse_down (initial_canvas\<lparr>g_mouse_down := True, g_current := [pt 0 0, pt 1 1]\<rparr>)
   \<and> g_current (cursor_pos_cb exact_env
        (clear_canvas (initial_canvas\<lparr>g_mouse_down := True, g_current := [pt 0 0, pt 1 1]\<rparr>))
        (Fin 800) (Fin 0)) = [pt 1 1]
   \<and> \<not> exceeds_threshold exact_env (pt 1 1) (pt 1 1)"
proof -
  let ?s = "initial_canvas\<lparr>g_mouse_down := True, g_current := [pt 0 0, pt 1 1]\<rparr>"
  have h: "g_mouse_down ?s" by simp
  have p: "wnd_to_ndc exact_env ?s (Fin 800) (Fin 0) = pt 1 1"
    by (simp add: wnd_to_ndc_def initial_canvas_def exact_env_def int_to_double_def fp_sub_def
        pt_def Let_def)
  have n: "\<not> exceeds_threshold exact_env (pt 1 1) (pt 1 1)"
    by (simp add: exceeds_threshold_def epsilon_def exact_env_def fp_sub_def pt_def Let_def)
  from clear_while_held[of ?s exact_env "Fin 800" "Fin 0"] h p n
  show ?thesis by simp
qed

section \<open>Opening the second window\<close>

lemma openSecondWindow_again:
  "secondWindow m = Some p \<Longrightarrow>
   openSecondWindow m = m\<lparr>window_calls := window_calls m @ [Show p, Raise p, ActivateWindow p]\<rparr>"
  by (simp add: openSecondWindow_def)

lemma openSecondWindow_first:
  "secondWindow m = None \<Longrightarrow>
   openSecondWindow m =
     m\<lparr>secondWindow := Some (new_SecondWindow (created m)),
       created := created m @ [new_SecondWindow (created m)],
       window_calls := window_calls m @ [Show (new_SecondWindow (created m)),
         Raise (new_SecondWindow (created m)), ActivateWindow (new_SecondWindow (created m))]\<rparr>"
  by (simp add: openSecondWindow_def Let_def)

lemma concat_replicate_snoc:
  "concat (replicate n xs) @ xs = concat (replicate (Suc n) xs)"
  by (induction n) simp_all

lemma openSecondWindow_repeat:
  "(openSecondWindow ^^ Suc n) MainWindow_ctor =
     \<lparr>secondWindow = Some (new_SecondWindow []), created = [new_SecondWindow []],
      window_calls = concat (replicate (Suc n)
        [Show (new_SecondWindow []), Raise (new_SecondWindow []),
         ActivateWindow (new_SecondWindow [])])\<rparr>"
proof (induction n)
  case 0
  show ?case by (simp add: openSecondWindow_first MainWindow_ctor_def)
next
  case (Suc n)
  have "(openSecondWindow ^^ Suc (Suc n)) MainWindow_ctor
        = openSecondWindow ((openSecondWindow ^^ Suc n) MainWindow_ctor)"
    by simp
  also have "\<dots> = \<lparr>secondWindow = Some (new_SecondWindow []), created = [new_SecondWindow []],
      window_calls = concat (replicate (Suc n)
        [Show (new_SecondWindow []), Raise (new_SecondWindow []),
         ActivateWindow (new_SecondWindow [])])
        @ [Show (new_SecondWindow []), Raise (new_SecondWindow []),
         ActivateWindow (new_SecondWindow [])]\<rparr>"
    unfolding Suc.IH by (simp add: openSecondWindow_again)
  also have "concat (replicate (Suc n)
        [Show (new_SecondWindow []), Raise (new_SecondWindow []),
         ActivateWindow (new_SecondWindow [])])
        @ [Show (new_SecondWindow []), Raise (new_SecondWindow []),
         ActivateWindow (new_SecondWindow [])]
      = concat (replicate (Suc (Suc n))
        [Show (new_SecondWindow []), Raise (new_SecondWindow []),
         ActivateWindow (new_SecondWindow [])])"
    by (rule concat_replicate_snoc)
  finally show ?case .
qed

text \<open>
  Claim C10. After \<open>n\<close> invocations of \<^verbatim>\<open>openSecondWindow\<close> on a constructed main
  window, as many \<^verbatim>\<open>SecondWindow\<close> objects have been created as \<open>n\<close> is positive:
  none for \<open>n = 0\<close>, one otherwise, the one created by the first invocation; each
  invocation has shown, raised and activated that object. An invocation that finds the
  pointer set creates nothing, keeps the pointer, and shows, raises and activates the
  object it points to.
\<close>

theorem openSecondWindow_creates_once:
  "length (created ((openSecondWindow ^^ n) MainWindow_ctor)) = (if n = 0 then 0 else 1)
   \<and> (0 < n \<longrightarrow>
        secondWindow ((openSecondWindow ^^ n) MainWindow_ctor) = Some (new_SecondWindow [])
      \<and> created ((openSecondWindow ^^ n) MainWindow_ctor) = [new_SecondWindow []]
      \<and> window_calls ((openSecondWindow ^^ n) MainWindow_ctor)
          = concat (replicate n [Show (new_SecondWindow []), Raise (new_SecondWindow []),
              ActivateWindow (new_SecondWindow [])]))
   \<and> (secondWindow m = Some p \<longrightarrow>
        secondWindow (openSecondWindow m) = Some p
      \<and> created (openSecondWindow m) = created m
      \<and> window_calls (openSecondWindow m)
          = window_calls m @ [Show p, Raise p, ActivateWindow p])"
proof (cases n)
  case 0
  then show ?thesis by (simp add: MainWindow_ctor_def openSecondWindow_again)
next
  case (Suc k)
  then show ?thesis
    unfolding Suc openSecondWindow_repeat by (simp add: openSecondWindow_again)
qed

theorem openSecondWindow_creates_once_witness:
  "(openSecondWindow ^^ 3) MainWindow_ctor =
     \<lparr>secondWindow = Some 1, created = [1],
      window_calls = [Show 1, Raise 1, ActivateWindow 1, Show 1, Raise 1, ActivateWindow 1,
                      Show 1, Raise 1, ActivateWindow 1]\<rparr>
   \<and> length (created ((openSecondWindow ^^ 3) MainWindow_ctor)) = 1
   \<and> created (openSecondWindow
        \<lparr>secondWindow = Some 1, created = [1],
         window_calls = [Show 1, Raise 1, ActivateWindow 1]\<rparr>) = [1]"
proof -
  have ev: "(openSecondWindow ^^ 3) MainWindow_ctor =
     \<lparr>secondWindow = Some 1, created = [1],
      window_calls = [Show 1, Raise 1, ActivateWindow 1, Show 1, Raise 1, ActivateWindow 1,
                      Show 1, Raise 1, ActivateWindow 1]\<rparr>"
    by (simp add: numeral_3_eq_3 openSecondWindow_def MainWindow_ctor_def new_SecondWindow_def Let_def)
  from openSecondWindow_creates_once[of 3
      "\<lparr>secondWindow = Some 1, created = [1],
         window_calls = [Show 1, Raise 1, ActivateWindow 1]\<rparr>" 1]
  have a: "length (created ((openSecondWindow ^^ 3) MainWindow_ctor)) = 1"
    and b: "created (openSecondWindow
        \<lparr>secondWindow = Some 1, created = [1],
         window_calls = [Show 1, Raise 1, ActivateWindow 1]\<rparr>) = [1]"
    by simp_all
  from ev a b show ?thesis by blast
qed

end
